theory Spec2Isabelle
  imports Complex_Main
begin

section \<open>JavaScript numbers and values\<close>

text \<open>
  The monitor of \<^verbatim>\<open>src/index.ts\<close> is TypeScript running on Node.js. A JavaScript number is
  a double: here it is the rational it denotes, one of the two infinities, or NaN. The
  comparisons and \<^verbatim>\<open>Math.floor\<close> are exact on doubles; sums and differences of the
  integers that occur as counts are exact; a quotient is rounded by the machine and taken
  exactly here (for 1000 divided by an integer rate from 1 to 1000 the fractional part of the
  quotient is 0 or at least 1/1000, so the floor of the rounded quotient is the floor of the
  exact one). The sign of a zero is not kept.
\<close>

datatype jsnum = Fin rat | PosInf | NegInf | NaN

text \<open>\<^verbatim>\<open>a < b\<close>: false whenever an operand is NaN.\<close>

fun js_lt :: "jsnum \<Rightarrow> jsnum \<Rightarrow> bool" where
  "js_lt (Fin a) (Fin b) = (a < b)"
| "js_lt (Fin a) PosInf = True"
| "js_lt NegInf (Fin b) = True"
| "js_lt NegInf PosInf = True"
| "js_lt _ _ = False"

text \<open>\<^verbatim>\<open>a > b\<close>.\<close>

definition js_gt :: "jsnum \<Rightarrow> jsnum \<Rightarrow> bool" where
  "js_gt a b = js_lt b a"

fun js_neg :: "jsnum \<Rightarrow> jsnum" where
  "js_neg (Fin a) = Fin (- a)"
| "js_neg PosInf = NegInf"
| "js_neg NegInf = PosInf"
| "js_neg NaN = NaN"

text \<open>\<^verbatim>\<open>a + b\<close> on numbers.\<close>

fun js_add :: "jsnum \<Rightarrow> jsnum \<Rightarrow> jsnum" where
  "js_add (Fin a) (Fin b) = Fin (a + b)"
| "js_add NaN _ = NaN"
| "js_add _ NaN = NaN"
| "js_add PosInf NegInf = NaN"
| "js_add NegInf PosInf = NaN"
| "js_add PosInf _ = PosInf"
| "js_add _ PosInf = PosInf"
| "js_add NegInf _ = NegInf"
| "js_add _ NegInf = NegInf"

text \<open>\<^verbatim>\<open>a - b\<close> on numbers.\<close>

definition js_sub :: "jsnum \<Rightarrow> jsnum \<Rightarrow> jsnum" where
  "js_sub a b = js_add a (js_neg b)"

text \<open>
  \<^verbatim>\<open>a / b\<close>: a finite number over zero is an infinity of the sign of the numerator (the
  zero divisors that occur here are positive zeros), zero over zero is NaN.
\<close>

fun js_div :: "jsnum \<Rightarrow> jsnum \<Rightarrow> jsnum" where
  "js_div (Fin a) (Fin b) =
     (if b = 0 then (if a = 0 then NaN else if 0 < a then PosInf else NegInf)
      else Fin (a / b))"
| "js_div NaN _ = NaN"
| "js_div _ NaN = NaN"
| "js_div (Fin a) _ = Fin 0"
| "js_div PosInf (Fin b) = (if 0 \<le> b then PosInf else NegInf)"
| "js_div NegInf (Fin b) = (if 0 \<le> b then NegInf else PosInf)"
| "js_div _ _ = NaN"

fun Math_floor :: "jsnum \<Rightarrow> jsnum" where
  "Math_floor (Fin a) = Fin (of_int \<lfloor>a\<rfloor>)"
| "Math_floor x = x"

text \<open>Truthiness of a number: every number but zero and NaN.\<close>

fun num_truthy :: "jsnum \<Rightarrow> bool" where
  "num_truthy (Fin a) = (a \<noteq> 0)"
| "num_truthy NaN = False"
| "num_truthy _ = True"

text \<open>
  The values an option of the constructor can hold, as far as the constructor tells them
  apart (by \<^verbatim>\<open>typeof\<close>, by comparison with \<^verbatim>\<open>undefined\<close> and by truthiness).
\<close>

datatype jsval =
    JUndefined
  | JNull
  | JBoolean bool
  | JNumber jsnum
  | JString string
  | JObject
  | JFunction

fun typeof :: "jsval \<Rightarrow> string" where
  "typeof JUndefined = ''undefined''"
| "typeof JNull = ''object''"
| "typeof (JBoolean b) = ''boolean''"
| "typeof (JNumber n) = ''number''"
| "typeof (JString s) = ''string''"
| "typeof JObject = ''object''"
| "typeof JFunction = ''function''"

fun truthy :: "jsval \<Rightarrow> bool" where
  "truthy JUndefined = False"
| "truthy JNull = False"
| "truthy (JBoolean b) = b"
| "truthy (JNumber n) = num_truthy n"
| "truthy (JString s) = (s \<noteq> [])"
| "truthy JObject = True"
| "truthy JFunction = True"

datatype error = TypeError string | RangeError string

section \<open>The JavaScript Map\<close>

text \<open>
  A \<^verbatim>\<open>Map\<close> keeps its entries in insertion order, one per key: \<^verbatim>\<open>set\<close> on a key
  that is present replaces the value in place, on a new key it appends; \<^verbatim>\<open>forEach\<close>
  visits the entries in that order. It is a list of pairs here.
\<close>

definition Map_get :: "('k \<times> 'v) list \<Rightarrow> 'k \<Rightarrow> 'v option" where
  "Map_get m k = map_of m k"

definition Map_has :: "('k \<times> 'v) list \<Rightarrow> 'k \<Rightarrow> bool" where
  "Map_has m k = (map_of m k \<noteq> None)"

fun Map_set :: "('k \<times> 'v) list \<Rightarrow> 'k \<Rightarrow> 'v \<Rightarrow> ('k \<times> 'v) list" where
  "Map_set [] k v = [(k, v)]"
| "Map_set ((k', v') # m) k v =
     (if k' = k then (k, v) # m else (k', v') # Map_set m k v)"

definition Map_delete :: "('k \<times> 'v) list \<Rightarrow> 'k \<Rightarrow> ('k \<times> 'v) list" where
  "Map_delete m k = filter (\<lambda>p. fst p \<noteq> k) m"

section \<open>HandleTracker\<close>

text \<open>
  The private fields \<^verbatim>\<open>#types\<close> (async id to resource type) and \<^verbatim>\<open>#counts\<close>
  (resource type to live count). Async ids are integers.
\<close>

record HandleTracker =
  types :: "(int \<times> string) list"
  counts :: "(string \<times> jsnum) list"
  hook_enabled :: bool

record HandlesSample =
  titles :: "string list"
  data :: "jsnum list"

text \<open>The constructor: two empty maps, and the hook enabled.\<close>

definition HandleTracker_new :: HandleTracker where
  "HandleTracker_new = \<lparr>types = [], counts = [], hook_enabled = True\<rparr>"

text \<open>\<^verbatim>\<open>x || 0\<close> for the result \<^verbatim>\<open>x\<close> of \<^verbatim>\<open>Map.get\<close> (\<^verbatim>\<open>undefined\<close> when absent).\<close>

fun or_zero :: "jsnum option \<Rightarrow> jsnum" where
  "or_zero None = Fin 0"
| "or_zero (Some n) = (if num_truthy n then n else Fin 0)"

text \<open>The number a result of \<^verbatim>\<open>Map.get\<close> stands for in arithmetic: \<^verbatim>\<open>undefined\<close> is NaN.\<close>

fun to_number :: "jsnum option \<Rightarrow> jsnum" where
  "to_number None = NaN"
| "to_number (Some n) = n"

text \<open>The \<^verbatim>\<open>init (id, type)\<close> callback of the hook.\<close>

definition hook_init :: "int \<Rightarrow> string \<Rightarrow> HandleTracker \<Rightarrow> HandleTracker" where
  "hook_init aid ty t =
     (let t1 = t\<lparr>types := Map_set (types t) aid ty\<rparr>
      in if \<not> Map_has (counts t1) ty
         then t1\<lparr>counts := Map_set (counts t1) ty (Fin 1)\<rparr>
         else t1\<lparr>counts :=
                Map_set (counts t1) ty (js_add (or_zero (Map_get (counts t1) ty)) (Fin 1))\<rparr>)"

text \<open>The \<^verbatim>\<open>destroy (id)\<close> callback of the hook.\<close>

definition hook_destroy :: "int \<Rightarrow> HandleTracker \<Rightarrow> HandleTracker" where
  "hook_destroy aid t =
     (let found = Map_get (types t) aid;
          t1 = t\<lparr>types := Map_delete (types t) aid\<rparr>
      in case found of
           None \<Rightarrow> t1
         | Some ty \<Rightarrow>
             (let t2 = t1\<lparr>counts :=
                         Map_set (counts t1) ty
                           (js_sub (to_number (Map_get (counts t1) ty)) (Fin 1))\<rparr>
              in if Map_get (counts t2) ty = Some (Fin 0)
                 then t2\<lparr>counts := Map_delete (counts t2) ty\<rparr>
                 else t2))"

text \<open>
  The body of the \<^verbatim>\<open>forEach\<close> in the getter \<^verbatim>\<open>counts\<close>, entry by entry in insertion
  order, on the object under construction.
\<close>

fun counts_forEach :: "(string \<times> jsnum) list \<Rightarrow> HandlesSample \<Rightarrow> HandlesSample" where
  "counts_forEach [] obj = obj"
| "counts_forEach ((key, v) # rest) obj =
     (let v' = (if key = ''UDPWRAP'' \<or> key = ''Timeout'' \<or> key = ''ELDHISTOGRAM''
                then js_sub v (Fin 1) else v);
          obj' = (if js_gt v' (Fin 0)
                  then obj\<lparr>titles := titles obj @ [key], data := data obj @ [v']\<rparr>
                  else obj)
      in counts_forEach rest obj')"

text \<open>The getter \<^verbatim>\<open>counts\<close>: the snapshot of the table.\<close>

definition HandleTracker_counts :: "HandleTracker \<Rightarrow> HandlesSample" where
  "HandleTracker_counts t = counts_forEach (counts t) \<lparr>titles = [], data = []\<rparr>"

text \<open>\<^verbatim>\<open>destroy ()\<close>: the hook is disabled.\<close>

definition HandleTracker_destroy :: "HandleTracker \<Rightarrow> HandleTracker" where
  "HandleTracker_destroy t = t\<lparr>hook_enabled := False\<rparr>"

text \<open>
  What the platform delivers to the hook: creations and destructions of async resources,
  to the callbacks above while the hook is enabled.
\<close>

datatype hook_event = Init int string | Destroy int

fun deliver :: "hook_event \<Rightarrow> HandleTracker \<Rightarrow> HandleTracker" where
  "deliver (Init aid ty) t = (if hook_enabled t then hook_init aid ty t else t)"
| "deliver (Destroy aid) t = (if hook_enabled t then hook_destroy aid t else t)"

fun hook_events :: "hook_event list \<Rightarrow> HandleTracker \<Rightarrow> HandleTracker" where
  "hook_events [] t = t"
| "hook_events (e # es) t = hook_events es (deliver e t)"

text \<open>The entry a snapshot reports for a resource type, if any.\<close>

definition reported :: "HandlesSample \<Rightarrow> string \<Rightarrow> jsnum option" where
  "reported s k = map_of (zip (titles s) (data s)) k"

text \<open>
  The number of async ids registered under a resource type, and what every reachable
  tracker satisfies: one entry per type, and a type's count is a positive integer that is
  at least the number of ids registered under it (absent when that integer is zero).
\<close>

definition registered :: "HandleTracker \<Rightarrow> string \<Rightarrow> nat" where
  "registered t ty = length (filter (\<lambda>p. snd p = ty) (types t))"

definition tracker_inv :: "HandleTracker \<Rightarrow> bool" where
  "tracker_inv t \<longleftrightarrow>
     distinct (map fst (counts t)) \<and>
     (\<forall>ty. \<exists>n. registered t ty \<le> n \<and>
        Map_get (counts t) ty = (if n = 0 then None else Some (Fin (of_nat n))))"

section \<open>GCTracker\<close>

text \<open>
  Four counters by kind of collection, and the durations recorded into the native
  histogram (an external library; its statistics are a function of what was recorded).
\<close>

record GCTracker =
  scavenges :: nat
  sweeps :: nat
  incremental :: nat
  weakcbs :: nat
  duration :: "jsnum list"

definition GCTracker_new :: GCTracker where
  "GCTracker_new = \<lparr>scavenges = 0, sweeps = 0, incremental = 0, weakcbs = 0, duration = []\<rparr>"

text \<open>The observer's callback on one entry (its duration and kind).\<close>

definition GCTracker_entry :: "jsnum \<Rightarrow> int \<Rightarrow> GCTracker \<Rightarrow> GCTracker" where
  "GCTracker_entry d kind g =
     (let g1 = g\<lparr>duration := duration g @ [d]\<rparr>
      in if kind = 0 then g1\<lparr>scavenges := scavenges g1 + 1\<rparr>
         else if kind = 1 then g1\<lparr>sweeps := sweeps g1 + 1\<rparr>
         else if kind = 2 then g1\<lparr>incremental := incremental g1 + 1\<rparr>
         else if kind = 3 then g1\<lparr>weakcbs := weakcbs g1 + 1\<rparr>
         else g1)"

text \<open>The getter \<^verbatim>\<open>sample\<close> reads the counters and the histogram as they are.\<close>

definition GCTracker_sample :: "GCTracker \<Rightarrow> GCTracker" where
  "GCTracker_sample g = g"

section \<open>Options, environment and defaults\<close>

text \<open>
  \<^verbatim>\<open>MonitorOptions\<close>: each property may be absent (\<open>None\<close>) or hold any value, since the
  constructor checks its argument at run time.
\<close>

record MonitorOptions =
  hz :: "jsval option"
  handles :: "jsval option"
  gc :: "jsval option"

record FilledMonitorOptions =
  default_hz :: jsnum
  default_handles :: bool
  default_gc :: bool

record process_env =
  NOTARE_HZ :: "string option"
  NOTARE_HANDLES :: "string option"
  NOTARE_GC :: "string option"

text \<open>
  \<^verbatim>\<open>kDefaultMonitorOptions\<close>, computed once when the module loads. \<^verbatim>\<open>parseInt\<close> is the
  platform's: it is a parameter.
\<close>

definition kDefaultMonitorOptions ::
  "(string \<Rightarrow> jsnum) \<Rightarrow> process_env \<Rightarrow> FilledMonitorOptions" where
  "kDefaultMonitorOptions parseInt env =
     \<lparr>default_hz =
        (let n = parseInt (case NOTARE_HZ env of
                             None \<Rightarrow> ''0''
                           | Some s \<Rightarrow> if s = [] then ''0'' else s)
         in if num_truthy n then n else Fin 2),
      default_handles = (NOTARE_HANDLES env = Some ''1''),
      default_gc = (NOTARE_GC env = Some ''1'')\<rparr>"

text \<open>
  The argument of the constructor: omitted or \<^verbatim>\<open>undefined\<close> (the default \<^verbatim>\<open>{}\<close> then
  applies), \<^verbatim>\<open>null\<close>, a value whose \<^verbatim>\<open>typeof\<close> is not \<^verbatim>\<open>'object'\<close>, or an object.
\<close>

datatype options_arg = ArgUndefined | ArgNull | ArgPrimitive | ArgObject MonitorOptions

text \<open>Reading a property: \<^verbatim>\<open>undefined\<close> when it is absent.\<close>

fun get_property :: "jsval option \<Rightarrow> jsval" where
  "get_property None = JUndefined"
| "get_property (Some v) = v"

text \<open>The default parameter and the check that \<^verbatim>\<open>options\<close> is an object.\<close>

fun check_options :: "options_arg \<Rightarrow> error + MonitorOptions" where
  "check_options ArgUndefined = Inr \<lparr>hz = None, handles = None, gc = None\<rparr>"
| "check_options ArgNull = Inl (TypeError ''options must be an object'')"
| "check_options ArgPrimitive = Inl (TypeError ''options must be an object'')"
| "check_options (ArgObject opts) = Inr opts"

text \<open>The checks of \<^verbatim>\<open>options.hz\<close>.\<close>

definition check_hz :: "jsval \<Rightarrow> error option" where
  "check_hz v =
     (if v \<noteq> JUndefined then
        (case v of
           JNumber n \<Rightarrow>
             if js_lt n (Fin 1) \<or> js_gt n (Fin 1000)
             then Some (RangeError ''options.hz must be a number between 1 and 1000'')
             else None
         | _ \<Rightarrow> Some (TypeError ''options.hz must be a number between 1 and 1000''))
      else None)"

text \<open>The check of \<^verbatim>\<open>options.handles\<close>. There is none of \<^verbatim>\<open>options.gc\<close>.\<close>

definition check_handles :: "jsval \<Rightarrow> error option" where
  "check_handles v =
     (if v \<noteq> JUndefined \<and> typeof v \<noteq> ''boolean''
      then Some (TypeError ''options.handles must be a boolean'')
      else None)"

definition validate :: "options_arg \<Rightarrow> error + MonitorOptions" where
  "validate arg =
     (case check_options arg of
        Inl e \<Rightarrow> Inl e
      | Inr opts \<Rightarrow>
          (case check_hz (get_property (hz opts)) of
             Some e \<Rightarrow> Inl e
           | None \<Rightarrow>
               (case check_handles (get_property (handles opts)) of
                  Some e \<Rightarrow> Inl e
                | None \<Rightarrow> Inr opts)))"

text \<open>
  \<^verbatim>\<open>{ ...kDefaultMonitorOptions, ...options }\<close>: a property that \<^verbatim>\<open>options\<close> has, even
  with the value \<^verbatim>\<open>undefined\<close>, replaces the default.
\<close>

record merged_options =
  opt_hz :: jsval
  opt_handles :: jsval
  opt_gc :: jsval

definition spread :: "FilledMonitorOptions \<Rightarrow> MonitorOptions \<Rightarrow> merged_options" where
  "spread dflt opts =
     \<lparr>opt_hz = (case hz opts of None \<Rightarrow> JNumber (default_hz dflt) | Some v \<Rightarrow> v),
      opt_handles = (case handles opts of None \<Rightarrow> JBoolean (default_handles dflt) | Some v \<Rightarrow> v),
      opt_gc = (case gc opts of None \<Rightarrow> JBoolean (default_gc dflt) | Some v \<Rightarrow> v)\<rparr>"

text \<open>
  \<^verbatim>\<open>Math.floor(1000 / (this.#options.hz || kDefaultMonitorOptions.hz))\<close>. Once
  \<open>check_hz\<close> has passed, the merged rate is a number or \<^verbatim>\<open>undefined\<close>, and
  \<^verbatim>\<open>undefined\<close> is falsy; no other value reaches this line.
\<close>

definition tick_delay :: "merged_options \<Rightarrow> FilledMonitorOptions \<Rightarrow> jsnum" where
  "tick_delay merged dflt =
     Math_floor (js_div (Fin 1000)
       (case opt_hz merged of
          JNumber n \<Rightarrow> if num_truthy n then n else default_hz dflt
        | _ \<Rightarrow> default_hz dflt))"

section \<open>What the platform supplies\<close>

text \<open>
  What \<^verbatim>\<open>_sample\<close> reads from the platform at one tick: \<^verbatim>\<open>process.hrtime.bigint()\<close>
  (nanoseconds on a monotonic clock), the cumulative CPU time of the process as the native
  call behind \<^verbatim>\<open>process.cpuUsage\<close> reports it (microseconds), the statistics the
  event-loop delay monitor reports when asked, and the values that are copied into the
  sample as they are (\<^verbatim>\<open>process.pid\<close>, \<^verbatim>\<open>threadId\<close>, \<^verbatim>\<open>isMainThread\<close>,
  \<^verbatim>\<open>process.memoryUsage()\<close>, \<^verbatim>\<open>os.cpus()\<close>, \<^verbatim>\<open>os.loadavg()\<close>, and
  \<^verbatim>\<open>performance.eventLoopUtilization()\<close> where the platform has it).
\<close>

record CpuUsage =
  user :: int
  system :: int

record host_reading =
  pid :: int
  threadId :: int
  isMainThread :: bool
  memory :: "int list"
  cpus :: "(string \<times> int list) list"
  loadAvg :: "jsnum list"
  loopUtilization :: "jsnum list option"

record reading =
  r_hrtime :: int
  r_cpuUsage :: CpuUsage
  r_host :: host_reading
  r_eventLoop :: "jsnum list"

text \<open>
  \<^verbatim>\<open>process.cpuUsage(previousValue)\<close>: the current reading, or with a previous value
  the difference of the current reading from it, field by field. (The platform refuses a
  previous value with a negative field; what the monitor passes has none as long as the
  readings do not decrease.)
\<close>

definition process_cpuUsage :: "CpuUsage \<Rightarrow> CpuUsage option \<Rightarrow> CpuUsage" where
  "process_cpuUsage cur prev =
     (case prev of
        None \<Rightarrow> cur
      | Some p \<Rightarrow> \<lparr>user = user cur - user p, system = system cur - system p\<rparr>)"

text \<open>
  The platform of a run: \<^verbatim>\<open>monitorEventLoopDelay\<close>, which may be undefined (\<open>None\<close>)
  and, called with a resolution, returns a monitor (\<open>None\<close>) or throws; and the high
  water mark a \<^verbatim>\<open>Readable\<close> in object mode gets.
\<close>

record platform =
  monitorEventLoopDelay :: "(jsnum \<Rightarrow> error option) option"
  objectModeHighWaterMark :: nat

text \<open>
  Node.js as documented: the resolution of \<^verbatim>\<open>monitorEventLoopDelay\<close> must be greater
  than zero (and a safe integer), otherwise the call throws a RangeError; the high water
  mark in object mode is 16 objects.
\<close>

definition node_monitorEventLoopDelay :: "jsnum \<Rightarrow> error option" where
  "node_monitorEventLoopDelay res =
     (case res of
        Fin q \<Rightarrow>
          if q \<le> 0 \<or> 9007199254740991 < q \<or> of_int \<lfloor>q\<rfloor> \<noteq> q
          then Some (RangeError ''ERR_INVALID_OPT_VALUE'')
          else None
      | _ \<Rightarrow> Some (RangeError ''ERR_INVALID_OPT_VALUE''))"

definition node_platform :: platform where
  "node_platform =
     \<lparr>monitorEventLoopDelay = Some node_monitorEventLoopDelay, objectModeHighWaterMark = 16\<rparr>"

section \<open>Monitor\<close>

record Sample =
  host :: host_reading
  cpu :: jsnum
  eventLoop :: "jsnum list option"
  handles_sample :: "HandlesSample option"
  gc_sample :: "GCTracker option"

text \<open>
  The part of \<^verbatim>\<open>Readable\<close> the monitor uses: the queue of what was pushed and not yet
  read, and the high water mark. \<^verbatim>\<open>push\<close> always queues the chunk; it returns false
  when the queue has reached the high water mark, which is how the stream tells its source
  that the consumer is not ready for more.
\<close>

record Readable =
  buffer :: "Sample list"
  highWaterMark :: nat

definition Readable_push ::
  "Sample \<Rightarrow> 'a Readable_scheme \<Rightarrow> bool \<times> 'a Readable_scheme" where
  "Readable_push chunk st =
     (let st' = st\<lparr>buffer := buffer st @ [chunk]\<rparr>
      in (length (buffer st') < highWaterMark st', st'))"

record timer =
  delay :: jsnum
  refed :: bool

record elmonitor =
  resolution :: jsnum
  enabled :: bool

text \<open>
  \<^verbatim>\<open>class Monitor extends Readable\<close>, with its private fields \<^verbatim>\<open>#options\<close>,
  \<^verbatim>\<open>#timer\<close>, \<^verbatim>\<open>#elmonitor\<close>, \<^verbatim>\<open>#lastTS\<close>, \<^verbatim>\<open>#lastCPUUsage\<close>, \<^verbatim>\<open>#handles\<close>
  and \<^verbatim>\<open>#gc\<close> (\<open>None\<close> where the field is undefined).
\<close>

record Monitor = Readable +
  p_options :: merged_options
  p_timer :: "timer option"
  p_elmonitor :: "elmonitor option"
  p_lastTS :: int
  p_lastCPUUsage :: "CpuUsage option"
  p_handles :: "HandleTracker option"
  p_gc :: "GCTracker option"

text \<open>\<^verbatim>\<open>_cpupct ()\<close>: the value returned, and the monitor with its two fields updated.\<close>

definition Monitor_cpupct :: "Monitor \<Rightarrow> reading \<Rightarrow> jsnum \<times> Monitor" where
  "Monitor_cpupct m r =
     (let now = r_hrtime r;
          elapsed = js_div (Fin (of_int (now - p_lastTS m))) (Fin 1000000);
          usage = process_cpuUsage (r_cpuUsage r) (p_lastCPUUsage m);
          total = js_div (Fin (of_int (user usage + system usage))) (Fin 1000000)
      in (js_div total elapsed, m\<lparr>p_lastCPUUsage := Some usage, p_lastTS := now\<rparr>))"

text \<open>\<^verbatim>\<open>_sample ()\<close> up to the sample it has assembled.\<close>

definition assemble :: "Monitor \<Rightarrow> reading \<Rightarrow> Sample \<times> Monitor" where
  "assemble m r =
     (let (c, m1) = Monitor_cpupct m r;
          sample = \<lparr>host = r_host r, cpu = c, eventLoop = None,
                    handles_sample = None, gc_sample = None\<rparr>;
          sample1 = (case p_handles m1 of
                       None \<Rightarrow> sample
                     | Some h \<Rightarrow> sample\<lparr>handles_sample := Some (HandleTracker_counts h)\<rparr>);
          sample2 = (case p_elmonitor m1 of
                       None \<Rightarrow> sample1
                     | Some e \<Rightarrow> sample1\<lparr>eventLoop := Some (r_eventLoop r)\<rparr>);
          sample3 = (case p_gc m1 of
                       None \<Rightarrow> sample2
                     | Some g \<Rightarrow> sample2\<lparr>gc_sample := Some (GCTracker_sample g)\<rparr>)
      in (sample3, m1))"

text \<open>\<^verbatim>\<open>_sample ()\<close>: the sample is pushed, and what \<^verbatim>\<open>push\<close> returns is not looked at.\<close>

definition Monitor_sample :: "Monitor \<Rightarrow> reading \<Rightarrow> Monitor" where
  "Monitor_sample m r = (let (sample, m1) = assemble m r in snd (Readable_push sample m1))"

text \<open>\<^verbatim>\<open>_read ()\<close>: nothing to do.\<close>

definition Monitor_read :: "Monitor \<Rightarrow> Monitor" where
  "Monitor_read m = m"

text \<open>
  The interval timer calls \<^verbatim>\<open>_sample\<close> at every firing; nothing but \<^verbatim>\<open>_destroy\<close>
  clears it. A run of firings, each with what the platform reports then:
\<close>

fun Monitor_ticks :: "reading list \<Rightarrow> Monitor \<Rightarrow> Monitor" where
  "Monitor_ticks [] m = m"
| "Monitor_ticks (r # rs) m = Monitor_ticks rs (Monitor_sample m r)"

text \<open>
  What the constructor does that is visible outside the object, in the order in which it
  does it.
\<close>

datatype action =
    Pushed Sample
  | SetInterval jsnum
  | MonitorEventLoopDelay jsnum
  | Enable
  | Unref
  | NewHandleTracker
  | NewGCTracker

text \<open>The end of the constructor: from \<^verbatim>\<open>this.#timer.unref()\<close> on.\<close>

definition Monitor_finish :: "action list \<Rightarrow> Monitor \<Rightarrow> action list \<times> (error + Monitor)" where
  "Monitor_finish tr m =
     (let m3 = m\<lparr>p_timer := map_option (\<lambda>t. t\<lparr>refed := False\<rparr>) (p_timer m)\<rparr>;
          tr3 = tr @ [Unref];
          m4 = (if truthy (opt_handles (p_options m3))
                then m3\<lparr>p_handles := Some HandleTracker_new\<rparr> else m3);
          tr4 = (if truthy (opt_handles (p_options m3)) then tr3 @ [NewHandleTracker] else tr3);
          m5 = (if truthy (opt_gc (p_options m4))
                then m4\<lparr>p_gc := Some GCTracker_new\<rparr> else m4);
          tr5 = (if truthy (opt_gc (p_options m4)) then tr4 @ [NewGCTracker] else tr4)
      in (tr5, Inr m5))"

text \<open>
  The object once \<^verbatim>\<open>#options\<close> and \<^verbatim>\<open>#lastTS\<close> are assigned (\<open>t0\<close> is the clock
  then): an empty stream in object mode, and every other private field undefined.
\<close>

definition Monitor_initial ::
  "platform \<Rightarrow> FilledMonitorOptions \<Rightarrow> MonitorOptions \<Rightarrow> int \<Rightarrow> Monitor" where
  "Monitor_initial pf dflt opts t0 =
     \<lparr>buffer = [], highWaterMark = objectModeHighWaterMark pf,
      p_options = spread dflt opts, p_timer = None, p_elmonitor = None,
      p_lastTS = t0, p_lastCPUUsage = None, p_handles = None, p_gc = None\<rparr>"

text \<open>
  The constructor; \<open>r0\<close> is what the platform reports to the first \<^verbatim>\<open>_sample\<close>. The
  result is what was done, in order, and the error thrown or the monitor constructed.
\<close>

definition Monitor_constructor ::
  "platform \<Rightarrow> FilledMonitorOptions \<Rightarrow> options_arg \<Rightarrow> int \<Rightarrow> reading \<Rightarrow>
   action list \<times> (error + Monitor)" where
  "Monitor_constructor pf dflt arg t0 r0 =
     (case validate arg of
        Inl e \<Rightarrow> ([], Inl e)
      | Inr opts \<Rightarrow>
          (let m0 = Monitor_initial pf dflt opts t0;
               d = tick_delay (p_options m0) dflt;
               (sample, m1) = assemble m0 r0;
               m2 = snd (Readable_push sample m1);
               m3 = m2\<lparr>p_timer := Some \<lparr>delay = d, refed = True\<rparr>\<rparr>;
               tr = [Pushed sample, SetInterval d]
           in case monitorEventLoopDelay pf of
                None \<Rightarrow> Monitor_finish tr m3
              | Some f \<Rightarrow>
                  (case f d of
                     Some e \<Rightarrow> (tr @ [MonitorEventLoopDelay d], Inl e)
                   | None \<Rightarrow>
                       Monitor_finish (tr @ [MonitorEventLoopDelay d, Enable])
                         (m3\<lparr>p_elmonitor := Some \<lparr>resolution = d, enabled = True\<rparr>\<rparr>))))"

text \<open>
  The utilisation the specification describes, from the CPU time consumed (microseconds)
  and the wall-clock time elapsed (nanoseconds) since the previous tick: CPU-seconds over
  wall-clock seconds.
\<close>

definition utilization_spec :: "int \<Rightarrow> int \<Rightarrow> jsnum" where
  "utilization_spec cpu_us elapsed_ns =
     js_div (js_div (Fin (of_int cpu_us)) (Fin 1000000))
            (js_div (Fin (of_int elapsed_ns)) (Fin 1000000000))"

text \<open>Readings for examples: the clock, and the cumulative user CPU time, on an idle host.\<close>

definition reading_at :: "int \<Rightarrow> int \<Rightarrow> reading" where
  "reading_at ns us =
     \<lparr>r_hrtime = ns, r_cpuUsage = \<lparr>user = us, system = 0\<rparr>,
      r_host = \<lparr>pid = 1, threadId = 0, isMainThread = True, memory = [], cpus = [],
                loadAvg = [], loopUtilization = None\<rparr>,
      r_eventLoop = []\<rparr>"

text \<open>
  What \<^verbatim>\<open>this.push(sample)\<close> returns to \<^verbatim>\<open>_sample\<close> at a tick, which \<^verbatim>\<open>_sample\<close>
  discards: false when the consumer is not ready for more.
\<close>

definition push_returned :: "Monitor \<Rightarrow> reading \<Rightarrow> bool" where
  "push_returned m r = (let (sample, m1) = assemble m r in fst (Readable_push sample m1))"

text \<open>
  For examples, \<^verbatim>\<open>parseInt\<close> on a string of decimal digits: the number the digits
  denote (NaN when the string does not begin with a digit; signs, blanks and the
  hexadecimal prefix are left out).
\<close>

definition digit :: "char \<Rightarrow> int option" where
  "digit c = map_of (zip ''0123456789'' [0, 1, 2, 3, 4, 5, 6, 7, 8, 9]) c"

fun digits_value :: "string \<Rightarrow> int \<Rightarrow> int" where
  "digits_value [] acc = acc"
| "digits_value (c # cs) acc =
     (case digit c of None \<Rightarrow> acc | Some v \<Rightarrow> digits_value cs (10 * acc + v))"

definition parseInt_decimal :: "string \<Rightarrow> jsnum" where
  "parseInt_decimal s =
     (case s of
        [] \<Rightarrow> NaN
      | c # cs \<Rightarrow> (case digit c of None \<Rightarrow> NaN | Some v \<Rightarrow> Fin (of_int (digits_value s 0))))"

text \<open>The defaults when the environment sets none of the three variables.\<close>

definition plain_defaults :: FilledMonitorOptions where
  "plain_defaults =
     kDefaultMonitorOptions parseInt_decimal
       \<lparr>NOTARE_HZ = None, NOTARE_HANDLES = None, NOTARE_GC = None\<rparr>"

section \<open>Properties of the Map and of the tracker\<close>

lemma Map_delete_absent: "Map_get m k = None \<Longrightarrow> Map_delete m k = m"
  unfolding Map_get_def Map_delete_def
  by (induction m) (auto split: if_splits)

lemma keys_Map_set: "fst ` set (Map_set m k v) = insert k (fst ` set m)"
proof (induction m)
  case Nil
  show ?case by simp
next
  case (Cons p m)
  obtain a b where p: "p = (a, b)" by (cases p)
  show ?case
    using Cons.IH by (cases "a = k") (simp_all add: p insert_commute)
qed

lemma distinct_Map_set: "distinct (map fst m) \<Longrightarrow> distinct (map fst (Map_set m k v))"
  by (induction m) (auto simp: keys_Map_set)

lemma distinct_Map_delete: "distinct (map fst m) \<Longrightarrow> distinct (map fst (Map_delete m k))"
  unfolding Map_delete_def by (simp add: distinct_map_filter)

lemma counts_forEach_length:
  "length (titles obj) = length (data obj) \<Longrightarrow>
   length (titles (counts_forEach xs obj)) = length (data (counts_forEach xs obj))"
  by (induction xs obj rule: counts_forEach.induct) (simp_all add: Let_def)

lemma counts_forEach_zip:
  "length (titles obj) = length (data obj) \<Longrightarrow>
   zip (titles (counts_forEach xs obj)) (data (counts_forEach xs obj)) =
   zip (titles obj) (data obj) @
   filter (\<lambda>p. js_gt (snd p) (Fin 0))
     (map (\<lambda>p. (fst p, if fst p = ''UDPWRAP'' \<or> fst p = ''Timeout'' \<or> fst p = ''ELDHISTOGRAM''
                          then js_sub (snd p) (Fin 1) else snd p)) xs)"
  by (induction xs obj rule: counts_forEach.induct) (simp_all add: Let_def)

lemma map_of_filter_map:
  "distinct (map fst xs) \<Longrightarrow>
   map_of (filter P (map (\<lambda>p. (fst p, f p)) xs)) k =
   (case map_of xs k of None \<Rightarrow> None
    | Some v \<Rightarrow> if P (k, f (k, v)) then Some (f (k, v)) else None)"
proof (induction xs)
  case Nil
  then show ?case by simp
next
  case (Cons x xs)
  obtain a b where x: "x = (a, b)" by (cases x)
  show ?case
  proof (cases "a = k")
    case True
    with Cons.prems x have "map_of xs k = None"
      by (auto simp: map_of_eq_None_iff)
    with Cons x True show ?thesis by auto
  next
    case False
    with Cons x show ?thesis by auto
  qed
qed

lemma distinct_counts_hook_init:
  "distinct (map fst (counts t)) \<Longrightarrow> distinct (map fst (counts (hook_init aid ty t)))"
  by (simp add: hook_init_def Let_def distinct_Map_set)

lemma distinct_counts_hook_destroy:
  "distinct (map fst (counts t)) \<Longrightarrow> distinct (map fst (counts (hook_destroy aid t)))"
  by (simp add: hook_destroy_def Let_def distinct_Map_set distinct_Map_delete split: option.splits)

lemma reported_counts:
  assumes "distinct (map fst (counts t))"
  shows "reported (HandleTracker_counts t) k =
    (case Map_get (counts t) k of None \<Rightarrow> None
     | Some v \<Rightarrow>
        (let v' = (if k = ''UDPWRAP'' \<or> k = ''Timeout'' \<or> k = ''ELDHISTOGRAM''
                   then js_sub v (Fin 1) else v)
         in if js_gt v' (Fin 0) then Some v' else None))"
  unfolding reported_def HandleTracker_counts_def Map_get_def
  by (simp add: counts_forEach_zip map_of_filter_map [OF assms] Let_def split: option.splits)

lemma counts_snapshot_zip:
  "zip (titles (HandleTracker_counts t)) (data (HandleTracker_counts t)) =
   filter (\<lambda>p. js_gt (snd p) (Fin 0))
     (map (\<lambda>p. (fst p, if fst p = ''UDPWRAP'' \<or> fst p = ''Timeout'' \<or> fst p = ''ELDHISTOGRAM''
                          then js_sub (snd p) (Fin 1) else snd p)) (counts t))"
  unfolding HandleTracker_counts_def by (simp add: counts_forEach_zip)

lemma counts_snapshot_length:
  "length (titles (HandleTracker_counts t)) = length (data (HandleTracker_counts t))"
  unfolding HandleTracker_counts_def by (simp add: counts_forEach_length)

lemma counts_snapshot_data:
  "data (HandleTracker_counts t) =
   map snd (filter (\<lambda>p. js_gt (snd p) (Fin 0))
     (map (\<lambda>p. (fst p, if fst p = ''UDPWRAP'' \<or> fst p = ''Timeout'' \<or> fst p = ''ELDHISTOGRAM''
                          then js_sub (snd p) (Fin 1) else snd p)) (counts t)))"
proof -
  have "data (HandleTracker_counts t) =
        map snd (zip (titles (HandleTracker_counts t)) (data (HandleTracker_counts t)))"
    by (simp add: counts_snapshot_length)
  then show ?thesis by (simp only: counts_snapshot_zip)
qed

lemma snapshot_data_positive: "v \<in> set (data (HandleTracker_counts t)) \<Longrightarrow> js_gt v (Fin 0)"
  by (auto simp: counts_snapshot_data)

lemma Map_get_Map_set: "Map_get (Map_set m k v) k' = (if k' = k then Some v else Map_get m k')"
  unfolding Map_get_def by (induction m) auto

lemma Map_get_Map_delete: "Map_get (Map_delete m k) k' = (if k' = k then None else Map_get m k')"
  unfolding Map_get_def Map_delete_def by (induction m) auto

lemma count_Map_set:
  "length (filter (\<lambda>p. snd p = ty') (Map_set m k ty)) \<le>
   length (filter (\<lambda>p. snd p = ty') m) + (if ty' = ty then 1 else 0)"
  by (induction m) auto

lemma count_Map_delete_le:
  "length (filter (\<lambda>p. snd p = ty') (Map_delete m k)) \<le> length (filter (\<lambda>p. snd p = ty') m)"
  unfolding Map_delete_def by (induction m) auto

lemma count_Map_delete_found:
  "Map_get m k = Some ty \<Longrightarrow>
   Suc (length (filter (\<lambda>p. snd p = ty) (Map_delete m k))) \<le> length (filter (\<lambda>p. snd p = ty) m)"
proof (induction m)
  case Nil
  then show ?case by (simp add: Map_get_def)
next
  case (Cons p m)
  obtain a b where p: "p = (a, b)" by (cases p)
  show ?case
  proof (cases "a = k")
    case True
    with Cons.prems p have "b = ty" by (simp add: Map_get_def)
    with True p count_Map_delete_le [of ty m k] show ?thesis
      by (simp add: Map_delete_def)
  next
    case False
    with Cons.prems p have "Map_get m k = Some ty" by (simp add: Map_get_def)
    from Cons.IH [OF this] False p show ?thesis by (simp add: Map_delete_def)
  qed
qed

lemma types_hook_init: "types (hook_init aid ty t) = Map_set (types t) aid ty"
  by (simp add: hook_init_def Let_def)

lemma types_hook_destroy: "types (hook_destroy aid t) = Map_delete (types t) aid"
  by (simp add: hook_destroy_def Let_def split: option.splits)

lemma counts_hook_init:
  "counts (hook_init aid ty t) =
     (if \<not> Map_has (counts t) ty then Map_set (counts t) ty (Fin 1)
      else Map_set (counts t) ty (js_add (or_zero (Map_get (counts t) ty)) (Fin 1)))"
  by (simp add: hook_init_def Let_def)

lemma counts_hook_destroy:
  "counts (hook_destroy aid t) =
     (case Map_get (types t) aid of
        None \<Rightarrow> counts t
      | Some ty \<Rightarrow>
          (let m = Map_set (counts t) ty (js_sub (to_number (Map_get (counts t) ty)) (Fin 1))
           in if Map_get m ty = Some (Fin 0) then Map_delete m ty else m))"
  by (simp add: hook_destroy_def Let_def split: option.splits)

lemma tracker_inv_new: "tracker_inv HandleTracker_new"
  by (simp add: tracker_inv_def HandleTracker_new_def registered_def Map_get_def)

lemma tracker_inv_hook_init:
  assumes "tracker_inv t"
  shows "tracker_inv (hook_init aid ty t)"
proof -
  from assms have d: "distinct (map fst (counts t))"
    and c: "\<And>x. \<exists>n. registered t x \<le> n \<and>
        Map_get (counts t) x = (if n = 0 then None else Some (Fin (of_nat n)))"
    by (simp_all add: tracker_inv_def)
  obtain n where n: "registered t ty \<le> n"
      "Map_get (counts t) ty = (if n = 0 then None else Some (Fin (of_nat n)))"
    using c [of ty] by blast
  have cs: "counts (hook_init aid ty t) = Map_set (counts t) ty (Fin (of_nat (Suc n)))"
  proof (cases "n = 0")
    case True
    with n have "\<not> Map_has (counts t) ty" by (simp add: Map_has_def Map_get_def)
    with True show ?thesis by (simp add: counts_hook_init)
  next
    case False
    with n have "Map_has (counts t) ty" by (simp add: Map_has_def Map_get_def)
    moreover have "js_add (or_zero (Map_get (counts t) ty)) (Fin 1) = Fin (of_nat (Suc n))"
      using n False by (simp add: add.commute)
    ultimately show ?thesis by (simp add: counts_hook_init)
  qed
  have "\<exists>m. registered (hook_init aid ty t) x \<le> m \<and>
        Map_get (counts (hook_init aid ty t)) x = (if m = 0 then None else Some (Fin (of_nat m)))" for x
  proof (cases "x = ty")
    case True
    have "registered (hook_init aid ty t) ty \<le> Suc n"
      using count_Map_set [of ty "types t" aid ty] n(1)
      by (simp add: registered_def types_hook_init)
    with True show ?thesis
      by (intro exI [of _ "Suc n"]) (simp add: cs Map_get_Map_set)
  next
    case False
    obtain m where m: "registered t x \<le> m"
      "Map_get (counts t) x = (if m = 0 then None else Some (Fin (of_nat m)))"
      using c [of x] by blast
    have "registered (hook_init aid ty t) x \<le> m"
      using count_Map_set [of x "types t" aid ty] m(1) False
      by (simp add: registered_def types_hook_init)
    with False m(2) show ?thesis
      by (intro exI [of _ m]) (simp add: cs Map_get_Map_set)
  qed
  moreover have "distinct (map fst (counts (hook_init aid ty t)))"
    using d by (rule distinct_counts_hook_init)
  ultimately show ?thesis by (simp add: tracker_inv_def)
qed

lemma tracker_inv_hook_destroy:
  assumes "tracker_inv t"
  shows "tracker_inv (hook_destroy aid t)"
proof -
  from assms have d: "distinct (map fst (counts t))"
    and c: "\<And>x. \<exists>n. registered t x \<le> n \<and>
        Map_get (counts t) x = (if n = 0 then None else Some (Fin (of_nat n)))"
    by (simp_all add: tracker_inv_def)
  have dd: "distinct (map fst (counts (hook_destroy aid t)))"
    using d by (rule distinct_counts_hook_destroy)
  have le: "registered (hook_destroy aid t) x \<le> registered t x" for x
    by (simp add: registered_def types_hook_destroy count_Map_delete_le)
  show ?thesis
  proof (cases "Map_get (types t) aid")
    case None
    then have cs: "counts (hook_destroy aid t) = counts t"
      by (simp add: counts_hook_destroy)
    have "\<exists>m. registered (hook_destroy aid t) x \<le> m \<and>
        Map_get (counts (hook_destroy aid t)) x = (if m = 0 then None else Some (Fin (of_nat m)))" for x
      using c [of x] le [of x] unfolding cs by (meson le_trans)
    with dd show ?thesis by (simp add: tracker_inv_def)
  next
    case (Some ty)
    obtain n where n: "registered t ty \<le> n"
      "Map_get (counts t) ty = (if n = 0 then None else Some (Fin (of_nat n)))"
      using c [of ty] by blast
    have found: "Suc (registered (hook_destroy aid t) ty) \<le> registered t ty"
      using count_Map_delete_found [OF Some] by (simp add: registered_def types_hook_destroy)
    with n(1) have pos: "0 < n" by simp
    then obtain k where k: "n = Suc k" by (cases n) simp_all
    have dec: "js_sub (to_number (Map_get (counts t) ty)) (Fin 1) = Fin (of_nat k)"
      using n(2) k by (simp add: js_sub_def)
    have cs: "counts (hook_destroy aid t) =
        (if k = 0 then Map_delete (Map_set (counts t) ty (Fin 0)) ty
         else Map_set (counts t) ty (Fin (of_nat k)))"
      using Some dec by (simp add: counts_hook_destroy Let_def Map_get_Map_set)
    have "\<exists>m. registered (hook_destroy aid t) x \<le> m \<and>
        Map_get (counts (hook_destroy aid t)) x = (if m = 0 then None else Some (Fin (of_nat m)))" for x
    proof (cases "x = ty")
      case True
      have "registered (hook_destroy aid t) ty \<le> k"
        using found n(1) k by simp
      with True show ?thesis
        by (intro exI [of _ k]) (simp add: cs Map_get_Map_set Map_get_Map_delete)
    next
      case False
      obtain m where m: "registered t x \<le> m"
        "Map_get (counts t) x = (if m = 0 then None else Some (Fin (of_nat m)))"
        using c [of x] by blast
      have "registered (hook_destroy aid t) x \<le> m"
        using le [of x] m(1) by simp
      with False m(2) show ?thesis
        by (intro exI [of _ m]) (simp add: cs Map_get_Map_set Map_get_Map_delete)
    qed
    with dd show ?thesis by (simp add: tracker_inv_def)
  qed
qed

lemma tracker_inv_deliver: "tracker_inv t \<Longrightarrow> tracker_inv (deliver e t)"
  by (cases e) (simp_all add: tracker_inv_hook_init tracker_inv_hook_destroy)

lemma tracker_inv_hook_events: "tracker_inv t \<Longrightarrow> tracker_inv (hook_events es t)"
  by (induction es arbitrary: t) (simp_all add: tracker_inv_deliver)

lemma tracker_inv_lookup:
  assumes "tracker_inv t"
  shows "Map_get (counts t) k = None \<or>
         (\<exists>n::nat. 0 < n \<and> Map_get (counts t) k = Some (Fin (of_nat n)))"
proof -
  from assms obtain n where
    "Map_get (counts t) k = (if n = 0 then None else Some (Fin (of_nat n)))"
    unfolding tracker_inv_def by blast
  then show ?thesis by (cases "n = 0") auto
qed

lemma tracker_inv_entry:
  assumes "tracker_inv t" and "(k, raw) \<in> set (counts t)"
  shows "\<exists>n::nat. 0 < n \<and> raw = Fin (of_nat n)"
proof -
  from assms have "Map_get (counts t) k = Some raw"
    by (simp add: tracker_inv_def Map_get_def)
  with tracker_inv_lookup [OF assms(1), of k] show ?thesis by auto
qed

section \<open>The resource-count snapshot\<close>

lemma reported_None_iff:
  "reported (HandleTracker_counts t) k = None \<longleftrightarrow> k \<notin> set (titles (HandleTracker_counts t))"
proof -
  have "fst ` set (zip (titles (HandleTracker_counts t)) (data (HandleTracker_counts t))) =
        set (titles (HandleTracker_counts t))"
    using map_fst_zip [OF counts_snapshot_length [of t]] by (metis set_map)
  then show ?thesis by (simp add: reported_def map_of_eq_None_iff)
qed

text \<open>
  C8. On a fresh tracker, after the creation of resource 1 of type A the snapshot is
  exactly the entry A with count 1; after the destruction of resource 1 the snapshot has no
  entry A; the destruction of an identifier that is not registered (never registered, or
  already removed) leaves the tracker as it is. The callbacks have no failing branch.
\<close>

theorem tracker_create_then_destroy:
  "HandleTracker_counts (hook_init 1 ''A'' HandleTracker_new) = \<lparr>titles = [''A''], data = [Fin 1]\<rparr> \<and>
   ''A'' \<notin> set (titles (HandleTracker_counts (hook_destroy 1 (hook_init 1 ''A'' HandleTracker_new)))) \<and>
   (\<forall>t aid. Map_get (types t) aid = None \<longrightarrow> hook_destroy aid t = t) \<and>
   (\<forall>t aid. hook_destroy aid (hook_destroy aid t) = hook_destroy aid t)"
proof (intro conjI allI impI)
  show "HandleTracker_counts (hook_init 1 ''A'' HandleTracker_new) = \<lparr>titles = [''A''], data = [Fin 1]\<rparr>"
    by (simp add: HandleTracker_counts_def hook_init_def HandleTracker_new_def Map_has_def js_gt_def)
  show "''A'' \<notin> set (titles (HandleTracker_counts (hook_destroy 1 (hook_init 1 ''A'' HandleTracker_new))))"
    by (simp add: HandleTracker_counts_def hook_init_def hook_destroy_def HandleTracker_new_def
        Map_has_def Map_get_def Map_delete_def js_sub_def)
next
  fix t :: HandleTracker and aid
  assume "Map_get (types t) aid = None"
  then show "hook_destroy aid t = t"
    by (simp add: hook_destroy_def Map_delete_absent)
next
  fix t :: HandleTracker and aid
  have "Map_get (types (hook_destroy aid t)) aid = None"
    by (simp add: types_hook_destroy Map_get_Map_delete)
  then show "hook_destroy aid (hook_destroy aid t) = hook_destroy aid t"
    by (simp add: hook_destroy_def Map_delete_absent)
qed

theorem tracker_create_then_destroy_witness:
  "Map_get (types (hook_init 1 ''A'' HandleTracker_new)) 2 = None \<and>
   hook_destroy 2 (hook_init 1 ''A'' HandleTracker_new) = hook_init 1 ''A'' HandleTracker_new"
proof -
  have h: "Map_get (types (hook_init 1 ''A'' HandleTracker_new)) 2 = None"
    by (simp add: hook_init_def HandleTracker_new_def Map_get_def Map_has_def)
  from tracker_create_then_destroy h show ?thesis by blast
qed

text \<open>
  C9. After any sequence of creation and destruction events on a fresh tracker, the
  snapshot has one count per title, and every count in it is a strictly positive integer.
\<close>

theorem snapshot_counts_positive:
  "length (titles (HandleTracker_counts (hook_events evs HandleTracker_new))) =
     length (data (HandleTracker_counts (hook_events evs HandleTracker_new))) \<and>
   (\<forall>v \<in> set (data (HandleTracker_counts (hook_events evs HandleTracker_new))).
      js_gt v (Fin 0) \<and> (\<exists>n::nat. 0 < n \<and> v = Fin (of_nat n)))"
proof (intro conjI ballI)
  show "length (titles (HandleTracker_counts (hook_events evs HandleTracker_new))) =
     length (data (HandleTracker_counts (hook_events evs HandleTracker_new)))"
    by (rule counts_snapshot_length)
next
  fix v
  let ?t = "hook_events evs HandleTracker_new"
  assume v: "v \<in> set (data (HandleTracker_counts ?t))"
  then show pos: "js_gt v (Fin 0)" by (rule snapshot_data_positive)
  have inv: "tracker_inv ?t" by (rule tracker_inv_hook_events [OF tracker_inv_new])
  from v obtain k raw where raw: "(k, raw) \<in> set (counts ?t)"
    and adj: "v = raw \<or> v = js_sub raw (Fin 1)"
    by (auto simp: counts_snapshot_data split: if_splits)
  from tracker_inv_entry [OF inv raw] obtain n :: nat where n: "0 < n" "raw = Fin (of_nat n)"
    by blast
  from adj show "\<exists>n::nat. 0 < n \<and> v = Fin (of_nat n)"
  proof
    assume "v = raw"
    with n show ?thesis by blast
  next
    assume "v = js_sub raw (Fin 1)"
    with n have v1: "v = Fin (of_nat (n - 1))" by (simp add: js_sub_def of_nat_diff)
    with pos have "0 < n - 1" by (simp add: js_gt_def)
    with v1 show ?thesis by blast
  qed
qed

theorem snapshot_counts_positive_witness:
  "Fin 2 \<in> set (data (HandleTracker_counts
      (hook_events [Init 1 ''Timeout'', Init 2 ''FSREQ'', Init 3 ''FSREQ'', Destroy 1] HandleTracker_new))) \<and>
   js_gt (Fin 2) (Fin 0)"
proof -
  have h: "Fin 2 \<in> set (data (HandleTracker_counts
      (hook_events [Init 1 ''Timeout'', Init 2 ''FSREQ'', Init 3 ''FSREQ'', Destroy 1] HandleTracker_new)))"
    by (simp add: HandleTracker_counts_def hook_init_def hook_destroy_def HandleTracker_new_def
        Map_has_def Map_get_def Map_delete_def js_sub_def js_gt_def)
  from snapshot_counts_positive [of "[Init 1 ''Timeout'', Init 2 ''FSREQ'', Init 3 ''FSREQ'', Destroy 1]"] h
  show ?thesis by blast
qed

text \<open>
  C5. After any sequence of events, for each of the three reserved types (UDPWRAP, Timeout,
  ELDHISTOGRAM): either the type has no raw count and the snapshot has no entry for it, or
  its raw count is a positive integer n, and the snapshot omits the type when n - 1 is zero
  and reports exactly n - 1, a positive number, otherwise.
\<close>

theorem reserved_counts_one_less:
  assumes "k = ''UDPWRAP'' \<or> k = ''Timeout'' \<or> k = ''ELDHISTOGRAM''"
  shows "(Map_get (counts (hook_events evs HandleTracker_new)) k = None \<and>
          reported (HandleTracker_counts (hook_events evs HandleTracker_new)) k = None \<and>
          k \<notin> set (titles (HandleTracker_counts (hook_events evs HandleTracker_new)))) \<or>
         (\<exists>n::nat. 0 < n \<and>
            Map_get (counts (hook_events evs HandleTracker_new)) k = Some (Fin (of_nat n)) \<and>
            (if n = 1
             then reported (HandleTracker_counts (hook_events evs HandleTracker_new)) k = None \<and>
                  k \<notin> set (titles (HandleTracker_counts (hook_events evs HandleTracker_new)))
             else reported (HandleTracker_counts (hook_events evs HandleTracker_new)) k =
                    Some (Fin (of_nat n - 1)) \<and>
                  0 < (of_nat n - 1 :: rat) \<and>
                  k \<in> set (titles (HandleTracker_counts (hook_events evs HandleTracker_new)))))"
proof -
  let ?t = "hook_events evs HandleTracker_new"
  have inv: "tracker_inv ?t" by (rule tracker_inv_hook_events [OF tracker_inv_new])
  then have d: "distinct (map fst (counts ?t))" by (simp add: tracker_inv_def)
  note r = reported_counts [OF d, of k]
  from tracker_inv_lookup [OF inv, of k] show ?thesis
  proof
    assume none: "Map_get (counts ?t) k = None"
    with r have "reported (HandleTracker_counts ?t) k = None" by simp
    with none show ?thesis by (simp add: reported_None_iff)
  next
    assume "\<exists>n::nat. 0 < n \<and> Map_get (counts ?t) k = Some (Fin (of_nat n))"
    then obtain n :: nat where n: "0 < n" "Map_get (counts ?t) k = Some (Fin (of_nat n))"
      by blast
    have rep: "reported (HandleTracker_counts ?t) k =
        (if 0 < (of_nat n - 1 :: rat) then Some (Fin (of_nat n - 1)) else None)"
      using r n(2) assms by (simp add: Let_def js_sub_def js_gt_def)
    have iff: "0 < (of_nat n - 1 :: rat) \<longleftrightarrow> n \<noteq> 1"
      using n(1) by (cases n) auto
    have "if n = 1
          then reported (HandleTracker_counts ?t) k = None \<and> k \<notin> set (titles (HandleTracker_counts ?t))
          else reported (HandleTracker_counts ?t) k = Some (Fin (of_nat n - 1)) \<and>
               0 < (of_nat n - 1 :: rat) \<and> k \<in> set (titles (HandleTracker_counts ?t))"
    proof (cases "n = 1")
      case True
      with rep have "reported (HandleTracker_counts ?t) k = None" by simp
      with True show ?thesis by (simp add: reported_None_iff)
    next
      case False
      with rep iff have "reported (HandleTracker_counts ?t) k = Some (Fin (of_nat n - 1))" by simp
      moreover from this have "k \<in> set (titles (HandleTracker_counts ?t))"
        using reported_None_iff [of ?t k] by auto
      ultimately show ?thesis using False iff by simp
    qed
    with n show ?thesis by blast
  qed
qed

theorem reserved_counts_one_less_witness:
  "(''Timeout'' = ''UDPWRAP'' \<or> ''Timeout'' = ''Timeout'' \<or> ''Timeout'' = ''ELDHISTOGRAM'') \<and>
   Map_get (counts (hook_events [Init 1 ''Timeout'', Init 2 ''Timeout'', Init 3 ''Timeout'', Init 4 ''ELDHISTOGRAM'']
      HandleTracker_new)) ''Timeout'' = Some (Fin 3) \<and>
   reported (HandleTracker_counts (hook_events [Init 1 ''Timeout'', Init 2 ''Timeout'', Init 3 ''Timeout'', Init 4 ''ELDHISTOGRAM'']
      HandleTracker_new)) ''Timeout'' = Some (Fin 2)"
proof -
  have k: "''Timeout'' = ''UDPWRAP'' \<or> ''Timeout'' = ''Timeout'' \<or> ''Timeout'' = ''ELDHISTOGRAM''"
    by simp
  have raw: "Map_get (counts (hook_events [Init 1 ''Timeout'', Init 2 ''Timeout'', Init 3 ''Timeout'', Init 4 ''ELDHISTOGRAM'']
      HandleTracker_new)) ''Timeout'' = Some (Fin 3)"
    by (simp add: hook_init_def HandleTracker_new_def Map_has_def Map_get_def)
  from reserved_counts_one_less [OF k, of "[Init 1 ''Timeout'', Init 2 ''Timeout'', Init 3 ''Timeout'', Init 4 ''ELDHISTOGRAM'']"] raw k
  show ?thesis by (auto split: if_splits)
qed

section \<open>Properties of sampling and of the constructor\<close>

lemma validate_Inr_iff:
  "validate arg = Inr opts \<longleftrightarrow>
     check_options arg = Inr opts \<and> check_hz (get_property (hz opts)) = None \<and>
     check_handles (get_property (handles opts)) = None"
  by (auto simp: validate_def split: sum.splits option.splits)

lemma constructor_invalid:
  "validate arg = Inl e \<Longrightarrow> Monitor_constructor pf dflt arg t0 r0 = ([], Inl e)"
  by (simp add: Monitor_constructor_def)

lemma snd_assemble:
  "snd (assemble m r) =
     m\<lparr>p_lastCPUUsage := Some (process_cpuUsage (r_cpuUsage r) (p_lastCPUUsage m)),
       p_lastTS := r_hrtime r\<rparr>"
  by (simp add: assemble_def Monitor_cpupct_def Let_def)

lemma snd_Readable_push: "snd (Readable_push s st) = st\<lparr>buffer := buffer st @ [s]\<rparr>"
  by (simp add: Readable_push_def Let_def)

lemma host_assemble: "host (fst (assemble m r)) = r_host r"
  by (simp add: assemble_def Let_def split_def split: option.splits)

lemma buffer_assemble: "buffer (snd (assemble m r)) = buffer m"
  by (simp add: assemble_def Monitor_cpupct_def Let_def)

lemma highWaterMark_assemble: "highWaterMark (snd (assemble m r)) = highWaterMark m"
  by (simp add: assemble_def Monitor_cpupct_def Let_def)

lemma buffer_Monitor_sample: "buffer (Monitor_sample m r) = buffer m @ [fst (assemble m r)]"
  by (simp add: Monitor_sample_def Readable_push_def Let_def split_def buffer_assemble)

lemma highWaterMark_Monitor_sample: "highWaterMark (Monitor_sample m r) = highWaterMark m"
  by (simp add: Monitor_sample_def Readable_push_def Let_def split_def highWaterMark_assemble)

lemma buffer_Monitor_ticks:
  "\<exists>new. buffer (Monitor_ticks rs m) = buffer m @ new \<and> length new = length rs"
proof (induction rs arbitrary: m)
  case Nil
  show ?case by simp
next
  case (Cons r rs)
  from Cons.IH [of "Monitor_sample m r"] obtain new where
    "buffer (Monitor_ticks rs (Monitor_sample m r)) = buffer (Monitor_sample m r) @ new"
    "length new = length rs" by blast
  then have "buffer (Monitor_ticks (r # rs) m) = buffer m @ (fst (assemble m r) # new) \<and>
             length (fst (assemble m r) # new) = length (r # rs)"
    by (simp add: buffer_Monitor_sample)
  then show ?case by blast
qed

lemma length_buffer_Monitor_ticks:
  "length (buffer (Monitor_ticks rs m)) = length (buffer m) + length rs"
  using buffer_Monitor_ticks [of rs m] by auto

lemma highWaterMark_Monitor_ticks: "highWaterMark (Monitor_ticks rs m) = highWaterMark m"
  by (induction rs arbitrary: m) (simp_all add: highWaterMark_Monitor_sample)

lemma push_returned_eq: "push_returned m r \<longleftrightarrow> length (buffer m) + 1 < highWaterMark m"
  by (simp add: push_returned_def Readable_push_def Let_def split_def snd_assemble)

lemma Monitor_finish_eq:
  "Monitor_finish tr m =
     (tr @ Unref #
        (if truthy (opt_handles (p_options m)) then [NewHandleTracker] else []) @
        (if truthy (opt_gc (p_options m)) then [NewGCTracker] else []),
      Inr (m\<lparr>p_timer := map_option (\<lambda>t. t\<lparr>refed := False\<rparr>) (p_timer m),
             p_handles := (if truthy (opt_handles (p_options m)) then Some HandleTracker_new
                           else p_handles m),
             p_gc := (if truthy (opt_gc (p_options m)) then Some GCTracker_new else p_gc m)\<rparr>))"
  by (simp add: Monitor_finish_def Let_def)

text \<open>
  The constructor on options that pass the checks, case by case: no delay monitor on the
  platform, a delay monitor that accepts the resolution, one that throws.
\<close>

lemma constructor_without_monitor:
  assumes "validate arg = Inr opts" and "monitorEventLoopDelay pf = None"
  shows "Monitor_constructor pf dflt arg t0 r0 =
    ([Pushed (fst (assemble (Monitor_initial pf dflt opts t0) r0)),
      SetInterval (tick_delay (spread dflt opts) dflt), Unref] @
     (if truthy (opt_handles (spread dflt opts)) then [NewHandleTracker] else []) @
     (if truthy (opt_gc (spread dflt opts)) then [NewGCTracker] else []),
     Inr \<lparr>buffer = [fst (assemble (Monitor_initial pf dflt opts t0) r0)],
          highWaterMark = objectModeHighWaterMark pf,
          p_options = spread dflt opts,
          p_timer = Some \<lparr>delay = tick_delay (spread dflt opts) dflt, refed = False\<rparr>,
          p_elmonitor = None,
          p_lastTS = r_hrtime r0,
          p_lastCPUUsage = Some (r_cpuUsage r0),
          p_handles = (if truthy (opt_handles (spread dflt opts)) then Some HandleTracker_new else None),
          p_gc = (if truthy (opt_gc (spread dflt opts)) then Some GCTracker_new else None)\<rparr>)"
  using assms
  by (simp add: Monitor_constructor_def Let_def split_def Monitor_finish_eq snd_assemble
      snd_Readable_push Monitor_initial_def process_cpuUsage_def)

lemma constructor_with_monitor:
  assumes "validate arg = Inr opts" and "monitorEventLoopDelay pf = Some f"
    and "f (tick_delay (spread dflt opts) dflt) = None"
  shows "Monitor_constructor pf dflt arg t0 r0 =
    ([Pushed (fst (assemble (Monitor_initial pf dflt opts t0) r0)),
      SetInterval (tick_delay (spread dflt opts) dflt),
      MonitorEventLoopDelay (tick_delay (spread dflt opts) dflt), Enable, Unref] @
     (if truthy (opt_handles (spread dflt opts)) then [NewHandleTracker] else []) @
     (if truthy (opt_gc (spread dflt opts)) then [NewGCTracker] else []),
     Inr \<lparr>buffer = [fst (assemble (Monitor_initial pf dflt opts t0) r0)],
          highWaterMark = objectModeHighWaterMark pf,
          p_options = spread dflt opts,
          p_timer = Some \<lparr>delay = tick_delay (spread dflt opts) dflt, refed = False\<rparr>,
          p_elmonitor = Some \<lparr>resolution = tick_delay (spread dflt opts) dflt, enabled = True\<rparr>,
          p_lastTS = r_hrtime r0,
          p_lastCPUUsage = Some (r_cpuUsage r0),
          p_handles = (if truthy (opt_handles (spread dflt opts)) then Some HandleTracker_new else None),
          p_gc = (if truthy (opt_gc (spread dflt opts)) then Some GCTracker_new else None)\<rparr>)"
  using assms
  by (simp add: Monitor_constructor_def Let_def split_def Monitor_finish_eq snd_assemble
      snd_Readable_push Monitor_initial_def process_cpuUsage_def)

lemma constructor_monitor_throws:
  assumes "validate arg = Inr opts" and "monitorEventLoopDelay pf = Some f"
    and "f (tick_delay (spread dflt opts) dflt) = Some e"
  shows "Monitor_constructor pf dflt arg t0 r0 =
    ([Pushed (fst (assemble (Monitor_initial pf dflt opts t0) r0)),
      SetInterval (tick_delay (spread dflt opts) dflt),
      MonitorEventLoopDelay (tick_delay (spread dflt opts) dflt)],
     Inl e)"
proof -
  have "p_options (Monitor_initial pf dflt opts t0) = spread dflt opts"
    by (simp add: Monitor_initial_def)
  with assms show ?thesis
    by (simp add: Monitor_constructor_def Let_def split_def)
qed

text \<open>The tick interval, and the checks of the rate.\<close>

lemma floor_1000_div: "\<lfloor>1000 / (of_int r :: rat)\<rfloor> = 1000 div r"
  using floor_divide_of_int_eq [of 1000 r, where ?'a = rat] by simp

lemma tick_delay_rate:
  assumes "r \<noteq> 0" and "hz opts = Some (JNumber (Fin (of_int r)))"
  shows "tick_delay (spread dflt opts) dflt = Fin (of_int \<lfloor>1000 / (of_int r :: rat)\<rfloor>)"
  using assms by (simp add: tick_delay_def spread_def)

lemma tick_delay_default:
  assumes "get_property (hz opts) = JUndefined"
  shows "tick_delay (spread dflt opts) dflt = Math_floor (js_div (Fin 1000) (default_hz dflt))"
proof (cases "hz opts")
  case None
  then show ?thesis by (simp add: tick_delay_def spread_def)
next
  case (Some v)
  with assms have "v = JUndefined" by simp
  with Some show ?thesis by (simp add: tick_delay_def spread_def)
qed

lemma check_hz_integer_rate: "1 \<le> r \<Longrightarrow> r \<le> 1000 \<Longrightarrow> check_hz (JNumber (Fin (of_int r))) = None"
  by (simp add: check_hz_def js_gt_def)

lemma check_hz_undefined: "check_hz JUndefined = None"
  by (simp add: check_hz_def)

text \<open>What passes the checks of the rate is \<^verbatim>\<open>undefined\<close> or a number, as \<open>tick_delay\<close> takes it.\<close>

lemma check_hz_passes:
  "check_hz v = None \<Longrightarrow> v = JUndefined \<or> (\<exists>n. v = JNumber n \<and> \<not> js_lt n (Fin 1) \<and> \<not> js_gt n (Fin 1000))"
  by (cases v) (simp_all add: check_hz_def split: if_splits)

lemma default_hz_env:
  assumes "parseInt (case NOTARE_HZ env of None \<Rightarrow> ''0'' | Some s \<Rightarrow> if s = [] then ''0'' else s) = Fin (of_int n)"
    and "n \<noteq> 0"
  shows "default_hz (kDefaultMonitorOptions parseInt env) = Fin (of_int n)"
  using assms by (simp add: kDefaultMonitorOptions_def)

text \<open>Node.js with the plain defaults: \<^verbatim>\<open>new Monitor()\<close> at two samples per second.\<close>

lemma plain_defaults_eq:
  "plain_defaults = \<lparr>default_hz = Fin 2, default_handles = False, default_gc = False\<rparr>"
  by (simp add: plain_defaults_def kDefaultMonitorOptions_def parseInt_decimal_def digit_def)

lemma parse_2000: "parseInt_decimal ''2000'' = Fin 2000"
  by (simp add: parseInt_decimal_def digit_def)

lemma node_monitor: "monitorEventLoopDelay node_platform = Some node_monitorEventLoopDelay"
  by (simp add: node_platform_def)

lemma node_hwm: "objectModeHighWaterMark node_platform = 16"
  by (simp add: node_platform_def)

lemma node_accepts_500: "node_monitorEventLoopDelay (Fin 500) = None"
  by (simp add: node_monitorEventLoopDelay_def)

lemma validate_no_options:
  "validate ArgUndefined = Inr \<lparr>hz = None, handles = None, gc = None\<rparr>"
  by (simp add: validate_def check_hz_def check_handles_def)

lemma tick_delay_plain:
  "tick_delay (spread plain_defaults \<lparr>hz = None, handles = None, gc = g\<rparr>) plain_defaults = Fin 500"
  using floor_divide_of_int_eq [of 1000 2, where ?'a = rat]
  by (simp add: tick_delay_def spread_def plain_defaults_eq)

lemma plain_monitor:
  "Monitor_constructor node_platform plain_defaults ArgUndefined t0 r0 =
    ([Pushed (fst (assemble (Monitor_initial node_platform plain_defaults \<lparr>hz = None, handles = None, gc = None\<rparr> t0) r0)),
      SetInterval (Fin 500), MonitorEventLoopDelay (Fin 500), Enable, Unref],
     Inr \<lparr>buffer = [fst (assemble (Monitor_initial node_platform plain_defaults \<lparr>hz = None, handles = None, gc = None\<rparr> t0) r0)],
          highWaterMark = 16,
          p_options = \<lparr>opt_hz = JNumber (Fin 2), opt_handles = JBoolean False, opt_gc = JBoolean False\<rparr>,
          p_timer = Some \<lparr>delay = Fin 500, refed = False\<rparr>,
          p_elmonitor = Some \<lparr>resolution = Fin 500, enabled = True\<rparr>,
          p_lastTS = r_hrtime r0,
          p_lastCPUUsage = Some (r_cpuUsage r0),
          p_handles = None,
          p_gc = None\<rparr>)"
proof -
  have a: "node_monitorEventLoopDelay (tick_delay (spread plain_defaults
      \<lparr>hz = None, handles = None, gc = None\<rparr>) plain_defaults) = None"
    unfolding tick_delay_plain by (rule node_accepts_500)
  show ?thesis
    unfolding constructor_with_monitor [OF validate_no_options node_monitor a] tick_delay_plain
    by (simp add: spread_def plain_defaults_eq node_hwm)
qed

section \<open>Backpressure\<close>

text \<open>
  C1, as the code has it. Every firing of the timer assembles a sample and pushes it,
  whatever the queue of the stream holds: what \<^verbatim>\<open>push\<close> returns is discarded, the timer
  stays armed, and \<^verbatim>\<open>_read\<close> changes nothing. So the samples that a consumer has not
  read stay queued in order, none dropped, one more per tick.
\<close>

theorem every_tick_pushes:
  "(\<exists>new. buffer (Monitor_ticks rs m) = buffer m @ new \<and> length new = length rs) \<and>
   buffer (Monitor_sample m r) = buffer m @ [fst (assemble m r)] \<and>
   p_timer (Monitor_sample m r) = p_timer m \<and>
   Monitor_read m = m"
  by (simp add: buffer_Monitor_ticks buffer_Monitor_sample Monitor_read_def Monitor_sample_def
      snd_Readable_push snd_assemble split_def)

text \<open>
  The claim of C1 as stated (sampling pauses while the consumer is not ready) fails: on
  Node.js, with no consumer reading, the push of the 16th sample returns false (the queue
  has reached the high water mark of 16), and the ticks go on: after 20 ticks 21 samples
  are queued.
\<close>

theorem every_tick_pushes_counterexample:
  "highWaterMark (projr (snd (Monitor_constructor node_platform plain_defaults ArgUndefined 0
      (reading_at 1000 5)))) = 16 \<and>
   \<not> push_returned (Monitor_ticks (replicate 14 (reading_at 2000 6))
      (projr (snd (Monitor_constructor node_platform plain_defaults ArgUndefined 0
         (reading_at 1000 5))))) (reading_at 2000 6) \<and>
   length (buffer (Monitor_ticks (replicate 15 (reading_at 2000 6))
      (projr (snd (Monitor_constructor node_platform plain_defaults ArgUndefined 0
         (reading_at 1000 5)))))) = 16 \<and>
   length (buffer (Monitor_ticks (replicate 20 (reading_at 2000 6))
      (projr (snd (Monitor_constructor node_platform plain_defaults ArgUndefined 0
         (reading_at 1000 5)))))) = 21"
  unfolding plain_monitor
  by (simp add: push_returned_eq length_buffer_Monitor_ticks highWaterMark_Monitor_ticks)

theorem every_tick_pushes_witness:
  "buffer (Monitor_sample
      (projr (snd (Monitor_constructor node_platform plain_defaults ArgUndefined 0 (reading_at 1000 5))))
      (reading_at 2000 6)) =
   buffer (projr (snd (Monitor_constructor node_platform plain_defaults ArgUndefined 0 (reading_at 1000 5)))) @
   [fst (assemble
      (projr (snd (Monitor_constructor node_platform plain_defaults ArgUndefined 0 (reading_at 1000 5))))
      (reading_at 2000 6))]"
  using every_tick_pushes [of "[]"
      "projr (snd (Monitor_constructor node_platform plain_defaults ArgUndefined 0 (reading_at 1000 5)))"
      "reading_at 2000 6"]
  by blast

section \<open>CPU utilisation\<close>

text \<open>
  Whenever the clock has advanced since the previous sample, what \<^verbatim>\<open>_cpupct\<close> returns
  is a thousandth of CPU-seconds over wall-clock seconds, for the CPU time that
  \<^verbatim>\<open>process.cpuUsage\<close> returned to it.
\<close>

lemma thousandth:
  fixes c e :: rat
  assumes "e \<noteq> 0"
  shows "c / 1000000 / (e / 1000000) = c / 1000000 / (e / 1000000000) / 1000"
  using assms by (simp add: field_simps)

lemma cpupct_thousandth:
  assumes "r_hrtime r \<noteq> p_lastTS m"
  shows "fst (Monitor_cpupct m r) =
     js_div (utilization_spec
        (user (process_cpuUsage (r_cpuUsage r) (p_lastCPUUsage m)) +
         system (process_cpuUsage (r_cpuUsage r) (p_lastCPUUsage m)))
        (r_hrtime r - p_lastTS m)) (Fin 1000)"
proof -
  let ?c = "of_int (user (process_cpuUsage (r_cpuUsage r) (p_lastCPUUsage m)) +
                    system (process_cpuUsage (r_cpuUsage r) (p_lastCPUUsage m))) :: rat"
  let ?e = "of_int (r_hrtime r - p_lastTS m) :: rat"
  from assms have e: "?e \<noteq> 0" by simp
  have "fst (Monitor_cpupct m r) = Fin (?c / 1000000 / (?e / 1000000))"
    using e by (simp only: Monitor_cpupct_def Let_def fst_conv js_div.simps) simp
  also have "\<dots> = Fin (?c / 1000000 / (?e / 1000000000) / 1000)"
    by (simp only: thousandth [OF e])
  also have "\<dots> = js_div (utilization_spec
        (user (process_cpuUsage (r_cpuUsage r) (p_lastCPUUsage m)) +
         system (process_cpuUsage (r_cpuUsage r) (p_lastCPUUsage m)))
        (r_hrtime r - p_lastTS m)) (Fin 1000)"
    using e by (simp only: utilization_spec_def js_div.simps) simp
  finally show ?thesis .
qed

text \<open>
  C2. The claim is that the \<^verbatim>\<open>cpu\<close> field is CPU-seconds since the previous tick over
  wall-clock seconds since the previous tick. The code divides CPU-seconds by wall-clock
  milliseconds, and from the third sample on it passes to \<^verbatim>\<open>process.cpuUsage\<close> the
  difference it got the time before, not a reading. Constructed at 1000 ns with 0.1 s of CPU
  consumed, then ticking every 1.024 s with 0.5 s of CPU consumed in each interval: the
  claimed value is 125/256 at both ticks; the code reports 1/2048 at the first and 3/5120
  at the second.
\<close>

theorem cpupct_seconds_over_milliseconds:
  "cpu (last (buffer (Monitor_ticks [reading_at 1024001000 600000]
      (projr (snd (Monitor_constructor node_platform plain_defaults ArgUndefined 0
         (reading_at 1000 100000))))))) = Fin (1 / 2048) \<and>
   utilization_spec (600000 - 100000) (1024001000 - 1000) = Fin (125 / 256) \<and>
   cpu (last (buffer (Monitor_ticks [reading_at 1024001000 600000, reading_at 2048001000 1100000]
      (projr (snd (Monitor_constructor node_platform plain_defaults ArgUndefined 0
         (reading_at 1000 100000))))))) = Fin (3 / 5120) \<and>
   utilization_spec (1100000 - 600000) (2048001000 - 1024001000) = Fin (125 / 256)"
  unfolding plain_monitor
  by (simp add: utilization_spec_def Monitor_sample_def assemble_def Monitor_cpupct_def
      process_cpuUsage_def Readable_push_def reading_at_def Let_def)

section \<open>Validation of the options\<close>

text \<open>
  The checks of the rate that the constructor makes. For options that are an object: a rate
  that is a number below 1 (zero and the negative numbers among them) or above 1000 is
  rejected with a RangeError, and a rate that is neither undefined nor a number with a
  TypeError, before anything is done (no sample is pushed). Integrality is not among the
  checks: every number from 1 to 1000 passes them, and the first sample is taken.
\<close>

theorem invalid_rate_rejected:
  assumes "check_options arg = Inr opts"
  shows "(\<forall>n. hz opts = Some (JNumber n) \<and> (js_lt n (Fin 1) \<or> js_gt n (Fin 1000)) \<longrightarrow>
            Monitor_constructor pf dflt arg t0 r0 =
              ([], Inl (RangeError ''options.hz must be a number between 1 and 1000''))) \<and>
         (\<forall>q. hz opts = Some (JNumber (Fin q)) \<and> (q < 1 \<or> 1000 < q) \<longrightarrow>
            Monitor_constructor pf dflt arg t0 r0 =
              ([], Inl (RangeError ''options.hz must be a number between 1 and 1000''))) \<and>
         (\<forall>v. hz opts = Some v \<and> v \<noteq> JUndefined \<and> typeof v \<noteq> ''number'' \<longrightarrow>
            Monitor_constructor pf dflt arg t0 r0 =
              ([], Inl (TypeError ''options.hz must be a number between 1 and 1000''))) \<and>
         (\<forall>q. hz opts = Some (JNumber (Fin q)) \<and> 1 \<le> q \<and> q \<le> 1000 \<and>
              check_handles (get_property (handles opts)) = None \<longrightarrow>
            (\<exists>s rest. fst (Monitor_constructor pf dflt arg t0 r0) = Pushed s # rest))"
proof (intro conjI allI impI)
  fix n
  assume "hz opts = Some (JNumber n) \<and> (js_lt n (Fin 1) \<or> js_gt n (Fin 1000))"
  with assms have "validate arg = Inl (RangeError ''options.hz must be a number between 1 and 1000'')"
    by (auto simp: validate_def check_hz_def)
  then show "Monitor_constructor pf dflt arg t0 r0 =
      ([], Inl (RangeError ''options.hz must be a number between 1 and 1000''))"
    by (rule constructor_invalid)
next
  fix q
  assume "hz opts = Some (JNumber (Fin q)) \<and> (q < 1 \<or> 1000 < q)"
  with assms have "validate arg = Inl (RangeError ''options.hz must be a number between 1 and 1000'')"
    by (auto simp: validate_def check_hz_def js_gt_def)
  then show "Monitor_constructor pf dflt arg t0 r0 =
      ([], Inl (RangeError ''options.hz must be a number between 1 and 1000''))"
    by (rule constructor_invalid)
next
  fix v
  assume a: "hz opts = Some v \<and> v \<noteq> JUndefined \<and> typeof v \<noteq> ''number''"
  then have "check_hz v = Some (TypeError ''options.hz must be a number between 1 and 1000'')"
    by (cases v) (simp_all add: check_hz_def)
  with assms a have "validate arg = Inl (TypeError ''options.hz must be a number between 1 and 1000'')"
    by (simp add: validate_def)
  then show "Monitor_constructor pf dflt arg t0 r0 =
      ([], Inl (TypeError ''options.hz must be a number between 1 and 1000''))"
    by (rule constructor_invalid)
next
  fix q
  assume a: "hz opts = Some (JNumber (Fin q)) \<and> 1 \<le> q \<and> q \<le> 1000 \<and>
             check_handles (get_property (handles opts)) = None"
  with assms have v: "validate arg = Inr opts"
    by (simp add: validate_Inr_iff check_hz_def js_gt_def)
  show "\<exists>s rest. fst (Monitor_constructor pf dflt arg t0 r0) = Pushed s # rest"
  proof (cases "monitorEventLoopDelay pf")
    case None
    show ?thesis unfolding constructor_without_monitor [OF v None] by simp
  next
    case (Some f)
    show ?thesis
    proof (cases "f (tick_delay (spread dflt opts) dflt)")
      case None
      show ?thesis unfolding constructor_with_monitor [OF v Some None] by simp
    next
      case (Some e)
      show ?thesis
        unfolding constructor_monitor_throws [OF v \<open>monitorEventLoopDelay pf = Some f\<close> Some]
        by simp
    qed
  qed
qed

theorem invalid_rate_rejected_witness:
  "check_options (ArgObject \<lparr>hz = Some (JNumber (Fin 0)), handles = None, gc = None\<rparr>) =
     Inr \<lparr>hz = Some (JNumber (Fin 0)), handles = None, gc = None\<rparr> \<and>
   Monitor_constructor node_platform plain_defaults
     (ArgObject \<lparr>hz = Some (JNumber (Fin 0)), handles = None, gc = None\<rparr>) 0 (reading_at 1000 5) =
     ([], Inl (RangeError ''options.hz must be a number between 1 and 1000'')) \<and>
   Monitor_constructor node_platform plain_defaults
     (ArgObject \<lparr>hz = Some (JNumber (Fin 1001)), handles = None, gc = None\<rparr>) 0 (reading_at 1000 5) =
     ([], Inl (RangeError ''options.hz must be a number between 1 and 1000'')) \<and>
   Monitor_constructor node_platform plain_defaults
     (ArgObject \<lparr>hz = Some (JString ''10''), handles = None, gc = None\<rparr>) 0 (reading_at 1000 5) =
     ([], Inl (TypeError ''options.hz must be a number between 1 and 1000''))"
proof -
  have c0: "check_options (ArgObject \<lparr>hz = Some (JNumber (Fin 0)), handles = None, gc = None\<rparr>) =
     Inr \<lparr>hz = Some (JNumber (Fin 0)), handles = None, gc = None\<rparr>" by simp
  have c1: "check_options (ArgObject \<lparr>hz = Some (JNumber (Fin 1001)), handles = None, gc = None\<rparr>) =
     Inr \<lparr>hz = Some (JNumber (Fin 1001)), handles = None, gc = None\<rparr>" by simp
  have c2: "check_options (ArgObject \<lparr>hz = Some (JString ''10''), handles = None, gc = None\<rparr>) =
     Inr \<lparr>hz = Some (JString ''10''), handles = None, gc = None\<rparr>" by simp
  from invalid_rate_rejected [OF c0, of node_platform plain_defaults 0 "reading_at 1000 5"]
    invalid_rate_rejected [OF c1, of node_platform plain_defaults 0 "reading_at 1000 5"]
    invalid_rate_rejected [OF c2, of node_platform plain_defaults 0 "reading_at 1000 5"]
  show ?thesis by simp
qed

text \<open>
  C3. The claim is that a rate that is 0, negative, greater than 1000 or not an integer
  makes the construction fail with a configuration error, no sample being emitted. The
  README documents \<^verbatim>\<open>hz\<close> as an integer between 1 and 1000, and the constructor checks
  the type and the range but not that the number is an integer: with the rate 1.5 the
  construction succeeds on Node.js, the first sample is pushed, and the timer and the delay
  monitor get floor (1000 / 1.5) = 666 ms.
\<close>

theorem noninteger_rate_accepted:
  "\<not> isl (snd (Monitor_constructor node_platform plain_defaults
       (ArgObject \<lparr>hz = Some (JNumber (Fin (3 / 2))), handles = None, gc = None\<rparr>) 0 (reading_at 1000 5))) \<and>
   fst (Monitor_constructor node_platform plain_defaults
       (ArgObject \<lparr>hz = Some (JNumber (Fin (3 / 2))), handles = None, gc = None\<rparr>) 0 (reading_at 1000 5)) =
     [Pushed \<lparr>host = r_host (reading_at 1000 5), cpu = Fin (1 / 200), eventLoop = None,
              handles_sample = None, gc_sample = None\<rparr>,
      SetInterval (Fin 666), MonitorEventLoopDelay (Fin 666), Enable, Unref]"
proof -
  have v: "validate (ArgObject \<lparr>hz = Some (JNumber (Fin (3 / 2))), handles = None, gc = None\<rparr>) =
      Inr \<lparr>hz = Some (JNumber (Fin (3 / 2))), handles = None, gc = None\<rparr>"
    by (simp add: validate_def check_hz_def check_handles_def js_gt_def)
  have d: "tick_delay (spread plain_defaults \<lparr>hz = Some (JNumber (Fin (3 / 2))), handles = None, gc = None\<rparr>)
      plain_defaults = Fin 666"
    using floor_divide_of_int_eq [of 2000 3, where ?'a = rat]
    by (simp add: tick_delay_def spread_def)
  have m: "monitorEventLoopDelay node_platform = Some node_monitorEventLoopDelay"
    by (simp add: node_platform_def)
  have a: "node_monitorEventLoopDelay (tick_delay (spread plain_defaults
      \<lparr>hz = Some (JNumber (Fin (3 / 2))), handles = None, gc = None\<rparr>) plain_defaults) = None"
    unfolding d by (simp add: node_monitorEventLoopDelay_def)
  show ?thesis
    unfolding constructor_with_monitor [OF v m a] d
    by (simp add: spread_def plain_defaults_eq assemble_def Monitor_cpupct_def Monitor_initial_def
        process_cpuUsage_def reading_at_def Let_def)
qed

text \<open>
  C4. The claim is that a flag that is present and not a boolean makes the construction
  fail. It does for \<^verbatim>\<open>handles\<close>; \<^verbatim>\<open>gc\<close> is never checked: with the string
  \<^verbatim>\<open>'yes'\<close> for \<^verbatim>\<open>gc\<close> the construction succeeds and the GC tracker is started,
  while the same value for \<^verbatim>\<open>handles\<close> is rejected with a TypeError.
\<close>

theorem gc_flag_not_checked:
  "\<not> isl (snd (Monitor_constructor node_platform plain_defaults
       (ArgObject \<lparr>hz = None, handles = None, gc = Some (JString ''yes'')\<rparr>) 0 (reading_at 1000 5))) \<and>
   p_gc (projr (snd (Monitor_constructor node_platform plain_defaults
       (ArgObject \<lparr>hz = None, handles = None, gc = Some (JString ''yes'')\<rparr>) 0 (reading_at 1000 5)))) =
     Some GCTracker_new \<and>
   Monitor_constructor node_platform plain_defaults
       (ArgObject \<lparr>hz = None, handles = Some (JString ''yes''), gc = None\<rparr>) 0 (reading_at 1000 5) =
     ([], Inl (TypeError ''options.handles must be a boolean''))"
proof -
  have v: "validate (ArgObject \<lparr>hz = None, handles = None, gc = Some (JString ''yes'')\<rparr>) =
      Inr \<lparr>hz = None, handles = None, gc = Some (JString ''yes'')\<rparr>"
    by (simp add: validate_def check_hz_def check_handles_def)
  have a: "node_monitorEventLoopDelay (tick_delay (spread plain_defaults
      \<lparr>hz = None, handles = None, gc = Some (JString ''yes'')\<rparr>) plain_defaults) = None"
    unfolding tick_delay_plain by (rule node_accepts_500)
  have w: "validate (ArgObject \<lparr>hz = None, handles = Some (JString ''yes''), gc = None\<rparr>) =
      Inl (TypeError ''options.handles must be a boolean'')"
    by (simp add: validate_def check_hz_def check_handles_def)
  show ?thesis
    unfolding constructor_with_monitor [OF v node_monitor a] constructor_invalid [OF w]
    by (simp add: spread_def)
qed

section \<open>The tick interval and the first sample\<close>

text \<open>
  C6. For every integer rate r from 1 to 1000, given in the options or, when the options
  give none, by the defaults (the options otherwise passing the checks), the timer is armed
  with floor (1000 / r) milliseconds, right after the first sample; where the platform has
  the delay monitor it is called next with that same number as its resolution; and the
  monitor constructed holds that interval and that resolution.
\<close>

theorem tick_interval_is_floor:
  fixes r :: int
  assumes "1 \<le> r" and "r \<le> 1000"
    and "check_options arg = Inr opts"
    and "hz opts = Some (JNumber (Fin (of_int r))) \<or>
         get_property (hz opts) = JUndefined \<and> default_hz dflt = Fin (of_int r)"
    and "check_handles (get_property (handles opts)) = None"
  shows "\<exists>s rest.
      fst (Monitor_constructor pf dflt arg t0 r0) =
        Pushed s # SetInterval (Fin (of_int \<lfloor>1000 / (of_int r :: rat)\<rfloor>)) # rest \<and>
      (\<forall>f. monitorEventLoopDelay pf = Some f \<longrightarrow>
         (\<exists>rest'. rest = MonitorEventLoopDelay (Fin (of_int \<lfloor>1000 / (of_int r :: rat)\<rfloor>)) # rest')) \<and>
      (\<forall>m. snd (Monitor_constructor pf dflt arg t0 r0) = Inr m \<longrightarrow>
         p_timer m = Some \<lparr>delay = Fin (of_int \<lfloor>1000 / (of_int r :: rat)\<rfloor>), refed = False\<rparr> \<and>
         (\<forall>f. monitorEventLoopDelay pf = Some f \<longrightarrow>
            p_elmonitor m =
              Some \<lparr>resolution = Fin (of_int \<lfloor>1000 / (of_int r :: rat)\<rfloor>), enabled = True\<rparr>))"
proof -
  from assms(1) have nz: "(of_int r :: rat) \<noteq> 0" by simp
  from assms(4) have "check_hz (get_property (hz opts)) = None"
    using assms(1,2) by (auto simp: check_hz_integer_rate check_hz_undefined)
  with assms(3,5) have v: "validate arg = Inr opts"
    by (simp add: validate_Inr_iff)
  from assms(4) have d: "tick_delay (spread dflt opts) dflt = Fin (of_int \<lfloor>1000 / (of_int r :: rat)\<rfloor>)"
  proof
    assume "hz opts = Some (JNumber (Fin (of_int r)))"
    with assms(1) show ?thesis by (intro tick_delay_rate) auto
  next
    assume "get_property (hz opts) = JUndefined \<and> default_hz dflt = Fin (of_int r)"
    with nz show ?thesis by (simp add: tick_delay_default)
  qed
  show ?thesis
  proof (cases "monitorEventLoopDelay pf")
    case None
    show ?thesis
      unfolding constructor_without_monitor [OF v None] d by (simp add: None)
  next
    case (Some f)
    show ?thesis
    proof (cases "f (tick_delay (spread dflt opts) dflt)")
      case None
      show ?thesis
        unfolding constructor_with_monitor [OF v Some None] d by (simp add: Some)
    next
      case (Some e)
      show ?thesis
        unfolding constructor_monitor_throws [OF v \<open>monitorEventLoopDelay pf = Some f\<close> Some] d
        by (simp add: \<open>monitorEventLoopDelay pf = Some f\<close>)
    qed
  qed
qed

theorem tick_interval_is_floor_witness:
  "(1 :: int) \<le> 10 \<and> (10 :: int) \<le> 1000 \<and>
   (\<exists>s rest. fst (Monitor_constructor node_platform plain_defaults
        (ArgObject \<lparr>hz = Some (JNumber (Fin (of_int 10))), handles = None, gc = None\<rparr>)
        0 (reading_at 1000 5)) =
      Pushed s # SetInterval (Fin 100) # MonitorEventLoopDelay (Fin 100) # rest)"
proof -
  have r: "(1 :: int) \<le> 10" "(10 :: int) \<le> 1000" by simp_all
  have c: "check_options (ArgObject \<lparr>hz = Some (JNumber (Fin (of_int 10))), handles = None, gc = None\<rparr>) =
      Inr \<lparr>hz = Some (JNumber (Fin (of_int 10))), handles = None, gc = None\<rparr>" by simp
  have h: "hz \<lparr>hz = Some (JNumber (Fin (of_int 10))), handles = None, gc = None\<rparr> =
      Some (JNumber (Fin (of_int 10))) \<or>
      get_property (hz \<lparr>hz = Some (JNumber (Fin (of_int 10))), handles = None, gc = None\<rparr>) = JUndefined \<and>
      default_hz plain_defaults = Fin (of_int 10)" by simp
  have a: "check_handles (get_property (handles
      \<lparr>hz = Some (JNumber (Fin (of_int 10))), handles = None, gc = None\<rparr>)) = None"
    by (simp add: check_handles_def)
  have f: "\<lfloor>1000 / (of_int 10 :: rat)\<rfloor> = 100"
    by (simp only: floor_1000_div)
  note t = tick_interval_is_floor [OF r c h a, of node_platform 0 "reading_at 1000 5",
      unfolded f]
  from t obtain s rest where
    1: "fst (Monitor_constructor node_platform plain_defaults
        (ArgObject \<lparr>hz = Some (JNumber (Fin (of_int 10))), handles = None, gc = None\<rparr>)
        0 (reading_at 1000 5)) = Pushed s # SetInterval (Fin (of_int 100)) # rest"
    and 2: "\<forall>f. monitorEventLoopDelay node_platform = Some f \<longrightarrow>
       (\<exists>rest'. rest = MonitorEventLoopDelay (Fin (of_int 100)) # rest')"
    by (elim exE conjE)
  from 2 node_monitor obtain rest' where "rest = MonitorEventLoopDelay (Fin (of_int 100)) # rest'"
    by (elim allE impE exE)
  with 1 r show ?thesis by simp
qed

text \<open>
  C7. Whenever the constructor returns a monitor, it has first pushed one sample, taken
  from what the platform reported during the construction, then armed the timer, and pushed
  nothing more: that sample is the one item of the stream.
\<close>

theorem first_sample_before_timer:
  assumes "Monitor_constructor pf dflt arg t0 r0 = (tr, Inr m)"
  shows "\<exists>s d rest.
      tr = Pushed s # SetInterval d # rest \<and>
      (\<forall>a \<in> set rest. \<forall>x. a \<noteq> Pushed x) \<and>
      host s = r_host r0 \<and>
      buffer m = [s] \<and>
      p_timer m = Some \<lparr>delay = d, refed = False\<rparr>"
proof (cases "validate arg")
  case (Inl e)
  from constructor_invalid [OF Inl, of pf dflt t0 r0] assms show ?thesis by simp
next
  case (Inr opts)
  let ?s = "fst (assemble (Monitor_initial pf dflt opts t0) r0)"
  let ?d = "tick_delay (spread dflt opts) dflt"
  have "\<exists>rest. tr = Pushed ?s # SetInterval ?d # rest \<and>
      (\<forall>a \<in> set rest. \<forall>x. a \<noteq> Pushed x) \<and>
      host ?s = r_host r0 \<and> buffer m = [?s] \<and> p_timer m = Some \<lparr>delay = ?d, refed = False\<rparr>"
  proof (cases "monitorEventLoopDelay pf")
    case None
    from assms show ?thesis
      unfolding constructor_without_monitor [OF Inr None] by (auto simp: host_assemble)
  next
    case (Some f)
    show ?thesis
    proof (cases "f (tick_delay (spread dflt opts) dflt)")
      case None
      from assms show ?thesis
        unfolding constructor_with_monitor [OF Inr Some None] by (auto simp: host_assemble)
    next
      case (Some e)
      from assms show ?thesis
        unfolding constructor_monitor_throws [OF Inr \<open>monitorEventLoopDelay pf = Some f\<close> Some]
        by simp
    qed
  qed
  then show ?thesis by blast
qed

theorem first_sample_before_timer_witness:
  "\<exists>s. fst (Monitor_constructor node_platform plain_defaults ArgUndefined 0 (reading_at 1000 5)) =
         [Pushed s, SetInterval (Fin 500), MonitorEventLoopDelay (Fin 500), Enable, Unref] \<and>
       buffer (projr (snd (Monitor_constructor node_platform plain_defaults ArgUndefined 0
         (reading_at 1000 5)))) = [s] \<and>
       host s = r_host (reading_at 1000 5)"
proof -
  from first_sample_before_timer [OF plain_monitor [of 0 "reading_at 1000 5"]]
  show ?thesis unfolding plain_monitor by auto
qed

section \<open>The rate from the environment\<close>

text \<open>
  C10, as the code has it. When the options give no rate and \<^verbatim>\<open>NOTARE_HZ\<close> parses to
  an integer n above 1000, that number is the default rate, no check rejects it, and it
  gives the tick interval floor (1000 / n) = 0, with which the timer is armed after the
  first sample. The construction then succeeds where the platform has no delay monitor or
  its delay monitor accepts the resolution 0, and fails with the platform's error where it
  does not.
\<close>

theorem env_rate_unchecked:
  fixes n :: int
  assumes "parseInt (case NOTARE_HZ env of None \<Rightarrow> ''0'' | Some s \<Rightarrow> if s = [] then ''0'' else s) = Fin (of_int n)"
    and "1000 < n"
    and "check_options arg = Inr opts"
    and "get_property (hz opts) = JUndefined"
    and "check_handles (get_property (handles opts)) = None"
  shows "default_hz (kDefaultMonitorOptions parseInt env) = Fin (of_int n) \<and>
     \<lfloor>1000 / (of_int n :: rat)\<rfloor> = 0 \<and>
     (\<exists>s rest. fst (Monitor_constructor pf (kDefaultMonitorOptions parseInt env) arg t0 r0) =
        Pushed s # SetInterval (Fin (of_int \<lfloor>1000 / (of_int n :: rat)\<rfloor>)) # rest) \<and>
     (case monitorEventLoopDelay pf of
        None \<Rightarrow> \<not> isl (snd (Monitor_constructor pf (kDefaultMonitorOptions parseInt env) arg t0 r0))
      | Some f \<Rightarrow>
          (case f (Fin 0) of
             None \<Rightarrow> \<not> isl (snd (Monitor_constructor pf (kDefaultMonitorOptions parseInt env) arg t0 r0))
           | Some e \<Rightarrow>
               snd (Monitor_constructor pf (kDefaultMonitorOptions parseInt env) arg t0 r0) = Inl e))"
proof -
  let ?dflt = "kDefaultMonitorOptions parseInt env"
  from assms have dh: "default_hz ?dflt = Fin (of_int n)"
    by (intro default_hz_env) auto
  from assms(2) have fl: "\<lfloor>1000 / (of_int n :: rat)\<rfloor> = 0"
    by (simp add: floor_1000_div)
  from assms have v: "validate arg = Inr opts"
    by (simp add: validate_Inr_iff check_hz_undefined)
  from assms(2) have nz: "(of_int n :: rat) \<noteq> 0" by simp
  have d: "tick_delay (spread ?dflt opts) ?dflt = Fin 0"
    using fl nz by (simp add: tick_delay_default [OF assms(4)] dh)
  show ?thesis
  proof (cases "monitorEventLoopDelay pf")
    case None
    show ?thesis
      unfolding constructor_without_monitor [OF v None] d by (simp add: None dh fl)
  next
    case (Some f)
    show ?thesis
    proof (cases "f (Fin 0)")
      case None
      with d have "f (tick_delay (spread ?dflt opts) ?dflt) = None" by simp
      from constructor_with_monitor [OF v Some this] show ?thesis
        unfolding d by (simp add: Some None dh fl)
    next
      case (Some e)
      with d have "f (tick_delay (spread ?dflt opts) ?dflt) = Some e" by simp
      from constructor_monitor_throws [OF v \<open>monitorEventLoopDelay pf = Some f\<close> this] show ?thesis
        unfolding d by (simp add: \<open>monitorEventLoopDelay pf = Some f\<close> Some dh fl)
    qed
  qed
qed

text \<open>
  The claim of C10 as stated (the construction succeeds) fails on Node.js, whose delay
  monitor requires a resolution greater than zero: with \<^verbatim>\<open>NOTARE_HZ=2000\<close> the
  constructor throws the RangeError of \<^verbatim>\<open>monitorEventLoopDelay\<close>.
\<close>

theorem env_rate_unchecked_counterexample:
  "parseInt_decimal ''2000'' = Fin 2000 \<and>
   snd (Monitor_constructor node_platform
     (kDefaultMonitorOptions parseInt_decimal
        \<lparr>NOTARE_HZ = Some ''2000'', NOTARE_HANDLES = None, NOTARE_GC = None\<rparr>)
     ArgUndefined 0 (reading_at 1000 5)) = Inl (RangeError ''ERR_INVALID_OPT_VALUE'')"
  by (simp add: parse_2000 Monitor_constructor_def validate_def check_hz_def check_handles_def
      kDefaultMonitorOptions_def Monitor_initial_def spread_def tick_delay_def
      node_platform_def node_monitorEventLoopDelay_def split_def Let_def)

theorem env_rate_unchecked_witness:
  "parseInt_decimal ''2000'' = Fin (of_int 2000) \<and> (1000 :: int) < 2000 \<and>
   default_hz (kDefaultMonitorOptions parseInt_decimal
     \<lparr>NOTARE_HZ = Some ''2000'', NOTARE_HANDLES = None, NOTARE_GC = None\<rparr>) = Fin (of_int 2000) \<and>
   \<not> isl (snd (Monitor_constructor \<lparr>monitorEventLoopDelay = None, objectModeHighWaterMark = 16\<rparr>
     (kDefaultMonitorOptions parseInt_decimal
        \<lparr>NOTARE_HZ = Some ''2000'', NOTARE_HANDLES = None, NOTARE_GC = None\<rparr>)
     ArgUndefined 0 (reading_at 1000 5)))"
proof -
  have p: "parseInt_decimal (case NOTARE_HZ \<lparr>NOTARE_HZ = Some ''2000'', NOTARE_HANDLES = None, NOTARE_GC = None\<rparr> of
      None \<Rightarrow> ''0'' | Some s \<Rightarrow> if s = [] then ''0'' else s) = Fin (of_int 2000)"
    by (simp add: parse_2000)
  have n: "(1000 :: int) < 2000" by simp
  have o: "check_options ArgUndefined = Inr \<lparr>hz = None, handles = None, gc = None\<rparr>" by simp
  have h: "get_property (hz \<lparr>hz = None, handles = None, gc = None\<rparr>) = JUndefined" by simp
  have a: "check_handles (get_property (handles \<lparr>hz = None, handles = None, gc = None\<rparr>)) = None"
    by (simp add: check_handles_def)
  from env_rate_unchecked [where parseInt = parseInt_decimal and n = 2000
      and pf = "\<lparr>monitorEventLoopDelay = None, objectModeHighWaterMark = 16\<rparr>"
      and ?t0.0 = 0 and ?r0.0 = "reading_at 1000 5", OF p n o h a]
  show ?thesis by (simp add: parse_2000)
qed

end
